theory Spec2Isabelle
  imports Complex_Main "HOL-Library.AList" "HOL-Library.Product_Lexorder"
begin

section \<open>Runtime values and the type compatibility table\<close>

text \<open>
  The dispatcher of \<^verbatim>\<open>src/torch_onnx/_dispatcher.py\<close> inspects Python values at run
  time. The values it distinguishes are: \<^verbatim>\<open>None\<close>, the scalars \<^verbatim>\<open>bool\<close>, \<^verbatim>\<open>int\<close>,
  \<^verbatim>\<open>float\<close>, \<^verbatim>\<open>str\<close>, \<^verbatim>\<open>complex\<close>, objects that satisfy the \<^verbatim>\<open>TensorLike\<close> protocol (they
  have a \<^verbatim>\<open>dtype\<close> attribute, which may be \<^verbatim>\<open>None\<close>), lists and tuples, and any other
  object.

  \<^verbatim>\<open>torch.dtype\<close> has more members than the compatibility table has keys; the members
  after \<open>torch_uint8\<close> below are dtypes of the host library that the table does not list.
\<close>

datatype dtype =
    torch_bfloat16 | torch_bool | torch_float64 | torch_float32 | torch_float16
  | torch_float8_e4m3fn | torch_float8_e4m3fnuz | torch_float8_e5m2 | torch_float8_e5m2fnuz
  | torch_int16 | torch_int32 | torch_int64 | torch_int8 | torch_uint8
  | torch_complex32 | torch_complex64 | torch_complex128
  | torch_uint16 | torch_uint32 | torch_uint64 | torch_qint8 | torch_quint8 | torch_qint32

datatype pytype =
    py_str | py_int | py_float | py_bool | py_complex
  | py_list | py_tuple | py_NoneType | py_other

datatype pyval =
    PNone
  | PBool bool
  | PInt int
  | PFloat real
  | PStr string
  | PComplex complex
  | PTensor "dtype option"
  | PList "pyval list"
  | PTuple "pyval list"
  | PObject string

text \<open>\<^verbatim>\<open>type(x)\<close>; a tensor-like object and any other object have a type that is no key
  of any table of the dispatcher.\<close>

fun type_of_pyval :: "pyval \<Rightarrow> pytype" where
  "type_of_pyval PNone = py_NoneType"
| "type_of_pyval (PBool _) = py_bool"
| "type_of_pyval (PInt _) = py_int"
| "type_of_pyval (PFloat _) = py_float"
| "type_of_pyval (PStr _) = py_str"
| "type_of_pyval (PComplex _) = py_complex"
| "type_of_pyval (PTensor _) = py_other"
| "type_of_pyval (PList _) = py_list"
| "type_of_pyval (PTuple _) = py_tuple"
| "type_of_pyval (PObject _) = py_other"

text \<open>\<^verbatim>\<open>isinstance(x, TensorLike)\<close>: the object has a \<^verbatim>\<open>dtype\<close> attribute.\<close>

fun is_TensorLike :: "pyval \<Rightarrow> bool" where
  "is_TensorLike (PTensor _) = True"
| "is_TensorLike _ = False"

datatype error =
    KeyError
  | UnknownInputType
  | UnsupportedOverloadPacket
  | UnsupportedNodeArg
  | UnsupportedOperator
  | CannotFindSymbolicFunction
  | CannotFindComplexSymbolicFunction
  | CannotFindRealSymbolicFunction
  | CannotFindAnySymbolicFunction
  | IndexError

text \<open>The keys of \<^verbatim>\<open>_TORCH_DTYPE_TO_COMPATIBLE_ONNX_TYPE_STRINGS\<close> are torch dtypes and
  Python types.\<close>

datatype table_key = Dtype dtype | PyType pytype

definition TORCH_DTYPE_TO_COMPATIBLE_ONNX_TYPE_STRINGS :: "(table_key \<times> string set) list" where
  "TORCH_DTYPE_TO_COMPATIBLE_ONNX_TYPE_STRINGS =
    [(Dtype torch_bfloat16, {''tensor(bfloat16)''}),
     (Dtype torch_bool, {''tensor(bool)''}),
     (Dtype torch_float64, {''tensor(double)''}),
     (Dtype torch_float32, {''tensor(float)''}),
     (Dtype torch_float16, {''tensor(float16)''}),
     (Dtype torch_float8_e4m3fn, {''tensor(float8_e4m3fn)''}),
     (Dtype torch_float8_e4m3fnuz, {''tensor(float8_e4m3fnuz)''}),
     (Dtype torch_float8_e5m2, {''tensor(float8_e5m2)''}),
     (Dtype torch_float8_e5m2fnuz, {''tensor(float8_e5m2fnuz)''}),
     (Dtype torch_int16, {''tensor(int16)''}),
     (Dtype torch_int32, {''tensor(int32)''}),
     (Dtype torch_int64, {''tensor(int64)''}),
     (Dtype torch_int8, {''tensor(int8)''}),
     (Dtype torch_uint8, {''tensor(uint8)''}),
     (PyType py_str, {''tensor(string)''}),
     (PyType py_int, {''tensor(int16)'', ''tensor(int32)'', ''tensor(int64)''}),
     (PyType py_float, {''tensor(float16)'', ''tensor(float)'', ''tensor(double)''}),
     (PyType py_bool, {''tensor(int32)'', ''tensor(int64)'', ''tensor(bool)''}),
     (PyType py_complex, {''tensor(float)'', ''tensor(double)''}),
     (Dtype torch_complex32, {''tensor(float16)''}),
     (Dtype torch_complex64, {''tensor(float)''}),
     (Dtype torch_complex128, {''tensor(double)''})]"

definition OPTIONAL_ONNX_DTYPE_STR :: "string set" where
  "OPTIONAL_ONNX_DTYPE_STR =
     (\<lambda>v. ''optional('' @ v @ '')'') ` (\<Union> (set (map snd TORCH_DTYPE_TO_COMPATIBLE_ONNX_TYPE_STRINGS)))"

definition is_optional_onnx_dtype_str :: "string \<Rightarrow> bool" where
  "is_optional_onnx_dtype_str onnx_type_str \<longleftrightarrow> onnx_type_str \<in> OPTIONAL_ONNX_DTYPE_STR"

text \<open>\<^verbatim>\<open>_from_torch_dtype_to_onnx_dtype_str\<close> subscripts the table: a key that is not
  there raises \<^verbatim>\<open>KeyError\<close>.\<close>

definition from_torch_dtype_to_onnx_dtype_str :: "table_key \<Rightarrow> error + string set" where
  "from_torch_dtype_to_onnx_dtype_str k =
     (case map_of TORCH_DTYPE_TO_COMPATIBLE_ONNX_TYPE_STRINGS k of
        None \<Rightarrow> Inl KeyError
      | Some s \<Rightarrow> Inr s)"

text \<open>
  \<^verbatim>\<open>_find_onnx_data_type\<close>. For a non-empty list or tuple the function calls itself on
  the first element that is not \<^verbatim>\<open>None\<close> (on \<^verbatim>\<open>None\<close> when there is none), and wraps
  every type string in \<^verbatim>\<open>seq(...)\<close> when some element of the sequence is tensor-like.
\<close>

definition seq_wrap :: "pyval list \<Rightarrow> string set \<Rightarrow> string set" where
  "seq_wrap torch_input set_dtype =
     (if list_ex is_TensorLike torch_input
      then (\<lambda>d. ''seq('' @ d @ '')'') ` set_dtype
      else set_dtype)"

function find_onnx_data_type :: "pyval \<Rightarrow> error + string set" where
  "find_onnx_data_type (PTensor (Some d)) = from_torch_dtype_to_onnx_dtype_str (Dtype d)"
| "find_onnx_data_type (PInt i) = from_torch_dtype_to_onnx_dtype_str (PyType py_int)"
| "find_onnx_data_type (PFloat r) = from_torch_dtype_to_onnx_dtype_str (PyType py_float)"
| "find_onnx_data_type (PBool b) = from_torch_dtype_to_onnx_dtype_str (PyType py_bool)"
| "find_onnx_data_type (PStr s) = from_torch_dtype_to_onnx_dtype_str (PyType py_str)"
| "find_onnx_data_type (PComplex c) = from_torch_dtype_to_onnx_dtype_str (PyType py_complex)"
| "find_onnx_data_type (PList xs) =
     (if xs = [] then Inr {}
      else (case filter (\<lambda>item. item \<noteq> PNone) xs of
              [] \<Rightarrow> Inr (seq_wrap xs {})
            | item # _ \<Rightarrow>
                (case find_onnx_data_type item of
                   Inl e \<Rightarrow> Inl e
                 | Inr set_dtype \<Rightarrow> Inr (seq_wrap xs set_dtype))))"
| "find_onnx_data_type (PTuple xs) =
     (if xs = [] then Inr {}
      else (case filter (\<lambda>item. item \<noteq> PNone) xs of
              [] \<Rightarrow> Inr (seq_wrap xs {})
            | item # _ \<Rightarrow>
                (case find_onnx_data_type item of
                   Inl e \<Rightarrow> Inl e
                 | Inr set_dtype \<Rightarrow> Inr (seq_wrap xs set_dtype))))"
| "find_onnx_data_type PNone = Inr {}"
| "find_onnx_data_type (PTensor None) = Inr {}"
| "find_onnx_data_type (PObject s) = Inl UnknownInputType"
  by pat_completeness auto

termination find_onnx_data_type
proof (relation "measure size")
  show "wf (measure (size :: pyval \<Rightarrow> nat))" by simp
next
  fix xs :: "pyval list" and item rest
  assume "filter (\<lambda>item. item \<noteq> PNone) xs = item # rest"
  then have "item \<in> set (filter (\<lambda>item. item \<noteq> PNone) xs)" by simp
  then have "item \<in> set xs" by simp
  then have "size item \<le> size_list size xs" by (rule size_list_estimation') simp
  then show "(item, PList xs) \<in> measure size" by simp
next
  fix xs :: "pyval list" and item rest
  assume "filter (\<lambda>item. item \<noteq> PNone) xs = item # rest"
  then have "item \<in> set (filter (\<lambda>item. item \<noteq> PNone) xs)" by simp
  then have "item \<in> set xs" by simp
  then have "size item \<le> size_list size xs" by (rule size_list_estimation') simp
  then show "(item, PTuple xs) \<in> measure size" by simp
qed


section \<open>Signatures\<close>

text \<open>
  The signature of a candidate implementation comes from the \<^verbatim>\<open>onnxscript\<close> and
  \<^verbatim>\<open>onnx\<close> libraries; the dispatcher reads the following parts of it.
  \<^item> \<^verbatim>\<open>param_schemas()\<close>: the ordered parameters, each with \<^verbatim>\<open>name\<close>, \<^verbatim>\<open>default\<close>,
    \<^verbatim>\<open>required\<close>, \<^verbatim>\<open>is_input\<close> and \<^verbatim>\<open>is_variadic_input\<close>; \<^verbatim>\<open>is_attribute\<close> is the
    negation of \<^verbatim>\<open>is_input\<close>.
  \<^item> \<^verbatim>\<open>op_schema.inputs\<close>: the declared inputs, each with the name \<^verbatim>\<open>type_str\<close> of its
    type constraint.
  \<^item> \<^verbatim>\<open>op_schema.type_constraints\<close>: each with \<^verbatim>\<open>type_param_str\<close> and
    \<^verbatim>\<open>allowed_type_strs\<close>.
  \<^item> \<^verbatim>\<open>op_schema.attributes\<close>: a dictionary from attribute name to its declared kind
    \<^verbatim>\<open>type\<close> and its \<^verbatim>\<open>default_value\<close>, of which only whether its type is
    \<^verbatim>\<open>UNDEFINED\<close> is read.
  Dictionaries are association lists in insertion order; \<open>AList.update\<close> overwrites
  the value of a key in place and appends a new key, as a Python \<^verbatim>\<open>dict\<close> does.
  \<open>function_name\<close> stands for the identity of the Python callable.
\<close>

datatype AttrType =
    AttrType_FLOAT | AttrType_INT | AttrType_STRING | AttrType_TENSOR | AttrType_GRAPH
  | AttrType_FLOATS | AttrType_INTS | AttrType_STRINGS | AttrType_TENSORS | AttrType_GRAPHS

record ParamSchema =
  param_name :: string
  param_default :: pyval
  param_required :: bool
  is_input :: bool
  is_variadic_input :: bool

definition is_attribute :: "ParamSchema \<Rightarrow> bool" where
  "is_attribute param \<longleftrightarrow> \<not> is_input param"

record FormalParameter =
  formal_name :: string
  type_str :: string

record Attribute =
  attr_type :: AttrType
  default_value_defined :: bool

record OnnxFunction =
  function_name :: string
  param_schemas :: "ParamSchema list"
  op_schema_inputs :: "FormalParameter list"
  op_schema_type_constraints :: "(string \<times> string list) list"
  op_schema_attributes :: "(string \<times> Attribute) list"

text \<open>\<^verbatim>\<open>_OnnxSchemaChecker.__init__\<close>: the dictionary
  \<^verbatim>\<open>{c.type_param_str: set(c.allowed_type_strs) for c in op_schema.type_constraints}\<close>.\<close>

definition type_constraints :: "OnnxFunction \<Rightarrow> (string \<times> string set) list" where
  "type_constraints onnxfunction =
     fold (\<lambda>(type_param_str, allowed_type_strs). AList.update type_param_str (set allowed_type_strs))
       (op_schema_type_constraints onnxfunction) []"

definition attributes :: "OnnxFunction \<Rightarrow> (string \<times> Attribute) list" where
  "attributes onnxfunction = op_schema_attributes onnxfunction"

fun from_python_type_to_onnx_attribute_type :: "pytype \<Rightarrow> bool \<Rightarrow> AttrType option" where
  "from_python_type_to_onnx_attribute_type py_float False = Some AttrType_FLOAT"
| "from_python_type_to_onnx_attribute_type py_int False = Some AttrType_INT"
| "from_python_type_to_onnx_attribute_type py_str False = Some AttrType_STRING"
| "from_python_type_to_onnx_attribute_type py_bool False = Some AttrType_INT"
| "from_python_type_to_onnx_attribute_type py_float True = Some AttrType_FLOATS"
| "from_python_type_to_onnx_attribute_type py_int True = Some AttrType_INTS"
| "from_python_type_to_onnx_attribute_type py_str True = Some AttrType_STRINGS"
| "from_python_type_to_onnx_attribute_type py_bool True = Some AttrType_INTS"
| "from_python_type_to_onnx_attribute_type _ _ = None"

section \<open>Argument separation\<close>

text \<open>
  \<^verbatim>\<open>_separate_input_attributes_from_arguments\<close>. One iteration of the loop over
  \<^verbatim>\<open>enumerate(param_schemas)\<close> is \<open>separate_step\<close>: it takes the index \<open>i\<close>, the
  parameter, and the state of the loop, which is the positional arguments (set to the
  empty list by a variadic input), the inputs and the attributes collected so far, and
  the copy of the keyword arguments. The only failure is the \<^verbatim>\<open>KeyError\<close> of
  \<^verbatim>\<open>self.attributes[param.name]\<close>, which is evaluated for an attribute parameter that
  is supplied neither positionally nor by keyword. No branch raises for a parameter
  that nothing supplies.
\<close>

type_synonym separate_state =
  "pyval list \<times> pyval list \<times> (string \<times> pyval) list \<times> (string \<times> pyval) list"

fun separate_step ::
  "(string \<times> Attribute) list \<Rightarrow> bool \<Rightarrow> nat \<Rightarrow> ParamSchema \<Rightarrow> separate_state \<Rightarrow>
   error + separate_state" where
  "separate_step attrs fill_defaults i param (args, onnx_inputs, onnx_attributes, copy_kwargs) =
     (if is_variadic_input param then
        Inr ([], onnx_inputs @ drop i args, onnx_attributes, copy_kwargs)
      else if i < length args then
        (if is_input param then
           Inr (args, onnx_inputs @ [args ! i], onnx_attributes, copy_kwargs)
         else
           Inr (args, onnx_inputs, AList.update (param_name param) (args ! i) onnx_attributes,
                copy_kwargs))
      else
        (case map_of copy_kwargs (param_name param) of
           Some v \<Rightarrow>
             (if is_input param then
                Inr (args, onnx_inputs @ [v], onnx_attributes,
                     AList.delete (param_name param) copy_kwargs)
              else
                Inr (args, onnx_inputs, AList.update (param_name param) v onnx_attributes,
                     copy_kwargs))
         | None \<Rightarrow>
             (case (if is_attribute param
                    then (case map_of attrs (param_name param) of
                            None \<Rightarrow> Inl KeyError
                          | Some a \<Rightarrow> Inr (default_value_defined a))
                    else Inr False) of
                Inl e \<Rightarrow> Inl e
              | Inr True \<Rightarrow>
                  Inr (args, onnx_inputs,
                       (if fill_defaults
                        then AList.update (param_name param) (param_default param) onnx_attributes
                        else onnx_attributes),
                       copy_kwargs)
              | Inr False \<Rightarrow>
                  (if is_input param then
                     Inr (args, (if fill_defaults then onnx_inputs @ [PNone] else onnx_inputs),
                          onnx_attributes, copy_kwargs)
                   else
                     Inr (args, onnx_inputs, onnx_attributes, copy_kwargs)))))"

fun separate_loop ::
  "(string \<times> Attribute) list \<Rightarrow> bool \<Rightarrow> nat \<Rightarrow> ParamSchema list \<Rightarrow> separate_state \<Rightarrow>
   error + separate_state" where
  "separate_loop attrs fill_defaults i [] st = Inr st"
| "separate_loop attrs fill_defaults i (param # rest) st =
     (case separate_step attrs fill_defaults i param st of
        Inl e \<Rightarrow> Inl e
      | Inr st' \<Rightarrow> separate_loop attrs fill_defaults (Suc i) rest st')"

text \<open>The loop over \<^verbatim>\<open>copy_kwargs.items()\<close> that picks up the extra keyword arguments.\<close>

fun pick_up_extra_kwargs ::
  "(string \<times> pyval) list \<Rightarrow> (string \<times> pyval) list \<Rightarrow> (string \<times> pyval) list" where
  "pick_up_extra_kwargs [] onnx_attributes = onnx_attributes"
| "pick_up_extra_kwargs ((k, v) # rest) onnx_attributes =
     pick_up_extra_kwargs rest
       (if k \<notin> fst ` set onnx_attributes \<and> v \<noteq> PNone
        then AList.update k v onnx_attributes
        else onnx_attributes)"

definition separate_input_attributes_from_arguments ::
  "(string \<times> Attribute) list \<Rightarrow> ParamSchema list \<Rightarrow> pyval list \<Rightarrow> (string \<times> pyval) list \<Rightarrow>
   bool \<Rightarrow> error + (pyval list \<times> (string \<times> pyval) list)" where
  "separate_input_attributes_from_arguments attrs params args kwargs fill_defaults =
     (case separate_loop attrs fill_defaults 0 params (args, [], [], kwargs) of
        Inl e \<Rightarrow> Inl e
      | Inr (args', onnx_inputs, onnx_attributes, copy_kwargs) \<Rightarrow>
          Inr (onnx_inputs, pick_up_extra_kwargs copy_kwargs onnx_attributes))"


section \<open>The schema checker\<close>

text \<open>
  \<^verbatim>\<open>_match_onnx_attribute_type\<close>: a scalar is looked up by its own type, a non-empty
  list or tuple by its first element with \<^verbatim>\<open>is_sequence=True\<close>; any other value, the
  empty sequence and \<^verbatim>\<open>None\<close> among them, does not match.
\<close>

definition match_scalar_attribute ::
  "(string \<times> Attribute) list \<Rightarrow> string \<Rightarrow> pytype \<Rightarrow> bool \<Rightarrow> error + bool" where
  "match_scalar_attribute attrs attribute_name ty is_sequence =
     (case map_of attrs attribute_name of
        None \<Rightarrow> Inl KeyError
      | Some a \<Rightarrow> Inr (from_python_type_to_onnx_attribute_type ty is_sequence = Some (attr_type a)))"

fun match_onnx_attribute_type ::
  "(string \<times> Attribute) list \<Rightarrow> string \<Rightarrow> pyval \<Rightarrow> bool \<Rightarrow> error + bool" where
  "match_onnx_attribute_type attrs attribute_name (PInt i) is_sequence =
     match_scalar_attribute attrs attribute_name py_int is_sequence"
| "match_onnx_attribute_type attrs attribute_name (PFloat r) is_sequence =
     match_scalar_attribute attrs attribute_name py_float is_sequence"
| "match_onnx_attribute_type attrs attribute_name (PBool b) is_sequence =
     match_scalar_attribute attrs attribute_name py_bool is_sequence"
| "match_onnx_attribute_type attrs attribute_name (PStr s) is_sequence =
     match_scalar_attribute attrs attribute_name py_str is_sequence"
| "match_onnx_attribute_type attrs attribute_name (PList (x # xs)) is_sequence =
     match_onnx_attribute_type attrs attribute_name x True"
| "match_onnx_attribute_type attrs attribute_name (PTuple (x # xs)) is_sequence =
     match_onnx_attribute_type attrs attribute_name x True"
| "match_onnx_attribute_type attrs attribute_name _ is_sequence = Inr False"

text \<open>The loop of \<^verbatim>\<open>perfect_match_inputs\<close> over
  \<^verbatim>\<open>zip(self.op_schema.inputs, function_inputs)\<close>; \<open>is_perfect_match\<close> is the flag.\<close>

fun check_input_types ::
  "(string \<times> string set) list \<Rightarrow> (FormalParameter \<times> pyval) list \<Rightarrow> bool \<Rightarrow> error + bool" where
  "check_input_types tc [] is_perfect_match = Inr is_perfect_match"
| "check_input_types tc ((schema_input, torch_input) # rest) is_perfect_match =
     (case find_onnx_data_type torch_input of
        Inl e \<Rightarrow> Inl e
      | Inr torch_input_compatible_types \<Rightarrow>
          (case map_of tc (type_str schema_input) of
             None \<Rightarrow> Inl KeyError
           | Some allowed_types \<Rightarrow>
               check_input_types tc rest
                 (if allowed_types \<inter> torch_input_compatible_types = {}
                     \<and> \<not> (\<exists>onnx_type_str \<in> allowed_types. is_optional_onnx_dtype_str onnx_type_str)
                  then False else is_perfect_match)))"

text \<open>The loop of \<^verbatim>\<open>perfect_match_inputs\<close> over \<^verbatim>\<open>function_attributes.items()\<close>.\<close>

fun check_attribute_types ::
  "(string \<times> Attribute) list \<Rightarrow> (string \<times> pyval) list \<Rightarrow> bool \<Rightarrow> error + bool" where
  "check_attribute_types attrs [] is_perfect_match = Inr is_perfect_match"
| "check_attribute_types attrs ((attribute_name, attribute) # rest) is_perfect_match =
     (case match_onnx_attribute_type attrs attribute_name attribute False of
        Inl e \<Rightarrow> Inl e
      | Inr m \<Rightarrow> check_attribute_types attrs rest (if \<not> m then False else is_perfect_match))"

text \<open>\<^verbatim>\<open>_record_matching_score\<close>: the two loops, on the score that starts at 0. The
  attribute loop calls \<^verbatim>\<open>_from_python_type_to_onnx_attribute_type(type(attribute))\<close>,
  with \<^verbatim>\<open>is_sequence\<close> left at its default \<^verbatim>\<open>False\<close>.\<close>

fun score_inputs ::
  "(string \<times> string set) list \<Rightarrow> (FormalParameter \<times> pyval) list \<Rightarrow> int \<Rightarrow> error + int" where
  "score_inputs tc [] matching_score = Inr matching_score"
| "score_inputs tc ((schema_input, torch_input) # rest) matching_score =
     (case find_onnx_data_type torch_input of
        Inl e \<Rightarrow> Inl e
      | Inr torch_input_compatible_types \<Rightarrow>
          (case map_of tc (type_str schema_input) of
             None \<Rightarrow> Inl KeyError
           | Some allowed_types \<Rightarrow>
               score_inputs tc rest
                 (if allowed_types \<inter> torch_input_compatible_types \<noteq> {}
                  then matching_score + 1 else matching_score)))"

fun score_attributes ::
  "(string \<times> Attribute) list \<Rightarrow> (string \<times> pyval) list \<Rightarrow> int \<Rightarrow> error + int" where
  "score_attributes [] function_attributes matching_score = Inr matching_score"
| "score_attributes ((attribute_name, attribute_proto) # rest) function_attributes matching_score =
     (case map_of function_attributes attribute_name of
        None \<Rightarrow> Inl KeyError
      | Some attribute \<Rightarrow>
          score_attributes rest function_attributes
            (if from_python_type_to_onnx_attribute_type (type_of_pyval attribute) False
                  \<noteq> Some (attr_type attribute_proto)
             then matching_score - 1 else matching_score))"

definition record_matching_score ::
  "OnnxFunction \<Rightarrow> pyval list \<Rightarrow> (string \<times> pyval) list \<Rightarrow> error + int" where
  "record_matching_score onnxfunction inputs function_attributes =
     (case score_inputs (type_constraints onnxfunction)
             (zip (op_schema_inputs onnxfunction) inputs) 0 of
        Inl e \<Rightarrow> Inl e
      | Inr matching_score \<Rightarrow>
          score_attributes (attributes onnxfunction) function_attributes matching_score)"

text \<open>
  \<^verbatim>\<open>perfect_match_inputs\<close> of a fresh \<^verbatim>\<open>_OnnxSchemaChecker\<close>. The result is the
  returned boolean together with \<^verbatim>\<open>match_score\<close> as it stands after the call:
  \<open>None\<close> when the method returned before \<^verbatim>\<open>_record_matching_score\<close>.
  \<open>count_and_names_match\<close> is the value of \<^verbatim>\<open>is_perfect_match\<close> after the comparison of
  the number of inputs and of the attribute names.
\<close>

definition count_and_names_match ::
  "OnnxFunction \<Rightarrow> pyval list \<Rightarrow> (string \<times> pyval) list \<Rightarrow> bool" where
  "count_and_names_match onnxfunction function_inputs function_attributes \<longleftrightarrow>
     length function_inputs = length (op_schema_inputs onnxfunction)
     \<and> set (map fst function_attributes) = set (map fst (attributes onnxfunction))"

definition perfect_match_inputs ::
  "OnnxFunction \<Rightarrow> pyval list \<Rightarrow> (string \<times> pyval) list \<Rightarrow> error + (bool \<times> int option)" where
  "perfect_match_inputs onnxfunction args kwargs =
     (case separate_input_attributes_from_arguments (attributes onnxfunction)
             (param_schemas onnxfunction) args kwargs True of
        Inl e \<Rightarrow> Inl e
      | Inr (function_inputs, function_attributes) \<Rightarrow>
          if \<not> count_and_names_match onnxfunction function_inputs function_attributes
          then Inr (False, None)
          else
            (case check_input_types (type_constraints onnxfunction)
                    (zip (op_schema_inputs onnxfunction) function_inputs) True of
               Inl e \<Rightarrow> Inl e
             | Inr ok_inputs \<Rightarrow>
                 (case check_attribute_types (attributes onnxfunction) function_attributes ok_inputs of
                    Inl e \<Rightarrow> Inl e
                  | Inr is_perfect_match \<Rightarrow>
                      (case record_matching_score onnxfunction function_inputs function_attributes of
                         Inl e \<Rightarrow> Inl e
                       | Inr matching_score \<Rightarrow> Inr (is_perfect_match, Some matching_score)))))"


section \<open>Registry\<close>

text \<open>
  Modelled from the spec: \<^verbatim>\<open>torch_onnx/_registration.py\<close> is not among the sources.
  \<open>OpName\<close> is the spec's OperatorIdentity \<^verbatim>\<open>{namespace, name, overload: optional}\<close>, a
  registry key with structural equality, and \<open>from_name_parts\<close> builds it from its
  three parts. \<open>ONNXFunction\<close> is the spec's CandidateImplementation
  \<^verbatim>\<open>{impl, qualified_name, is_custom, is_complex}\<close>, an immutable value object: two
  candidates are equal when their four fields are, which is the equality that the
  dictionary \<^verbatim>\<open>overload_match_ranking\<close> and \<^verbatim>\<open>list.index\<close> of the dispatcher use.
\<close>

record OpName =
  namespace :: string
  op_name :: string
  overload :: "string option"

definition from_name_parts :: "string \<Rightarrow> string \<Rightarrow> string option \<Rightarrow> OpName" where
  "from_name_parts ns name ov = \<lparr>namespace = ns, op_name = name, overload = ov\<rparr>"

record ONNXFunction =
  onnx_function :: OnnxFunction
  op_full_name :: string
  is_custom :: bool
  is_complex :: bool

text \<open>\<^verbatim>\<open>OnnxRegistry\<close>: the dictionary \<^verbatim>\<open>_registry\<close>, \<^verbatim>\<open>_register\<close>, \<^verbatim>\<open>register_op\<close>,
  \<^verbatim>\<open>get_op_functions\<close> and \<^verbatim>\<open>is_registered_op\<close>.\<close>

type_synonym OnnxRegistry = "OpName \<rightharpoonup> ONNXFunction list"

definition register :: "OnnxRegistry \<Rightarrow> OpName \<Rightarrow> ONNXFunction \<Rightarrow> OnnxRegistry" where
  "register registry internal_qualified_name symbolic_function =
     registry(internal_qualified_name \<mapsto>
       (case registry internal_qualified_name of None \<Rightarrow> [] | Some fs \<Rightarrow> fs) @ [symbolic_function])"

definition register_op ::
  "OnnxRegistry \<Rightarrow> OnnxFunction \<Rightarrow> string \<Rightarrow> string \<Rightarrow> string option \<Rightarrow> bool \<Rightarrow> string \<Rightarrow>
   OnnxRegistry" where
  "register_op registry function ns name ov complex qualified_name =
     register registry (from_name_parts ns name ov)
       \<lparr>onnx_function = function, op_full_name = qualified_name,
        is_custom = True, is_complex = complex\<rparr>"

definition get_op_functions ::
  "OnnxRegistry \<Rightarrow> string \<Rightarrow> string \<Rightarrow> string option \<Rightarrow> ONNXFunction list option" where
  "get_op_functions registry ns name ov = registry (from_name_parts ns name ov)"

definition is_registered_op :: "OnnxRegistry \<Rightarrow> string \<Rightarrow> string \<Rightarrow> string option \<Rightarrow> bool" where
  "is_registered_op registry ns name ov \<longleftrightarrow> get_op_functions registry ns name ov \<noteq> None"

section \<open>Call sites\<close>

text \<open>
  A \<^verbatim>\<open>torch.fx.Node\<close> is read through its \<^verbatim>\<open>target\<close> and its \<^verbatim>\<open>args\<close>. Of an
  argument the dispatcher asks whether it is a node, and then what \<^verbatim>\<open>meta["val"]\<close>
  is (if the key is there), whether it is an \<^verbatim>\<open>int\<close> or a \<^verbatim>\<open>float\<close>, and whether it is a
  \<^verbatim>\<open>list\<close>; a tuple is no \<^verbatim>\<open>list\<close> and falls under \<open>FxOther\<close>.
  Of the target it asks which kind of callable it is. The \<open>OpName\<close> that
  \<^verbatim>\<open>OpName.from_op_overload\<close> and \<^verbatim>\<open>OpName.from_builtin_function\<close> of the registration
  module give for the target is carried by the target.
\<close>

datatype meta_val =
    MetaTensor bool
  | MetaSymBool | MetaSymInt | MetaSymFloat
  | MetaOther

datatype fx_arg =
    FxNode "meta_val option"
  | FxInt int
  | FxFloat real
  | FxList "fx_arg list"
  | FxOther

datatype target =
    operator_getitem
  | OpOverloadPacket bool OpName
  | BuiltinFunctionType OpName
  | OpOverload OpName
  | OtherTarget

record Node =
  node_target :: target
  node_args :: "fx_arg list"

text \<open>\<^verbatim>\<open>_is_arg_with_complex_dtype\<close>: the loop over a list returns in its first
  iteration.\<close>

fun is_arg_with_complex_dtype :: "fx_arg \<Rightarrow> bool" where
  "is_arg_with_complex_dtype (FxNode (Some (MetaTensor is_complex_tensor))) = is_complex_tensor"
| "is_arg_with_complex_dtype (FxList (item # rest)) = is_arg_with_complex_dtype item"
| "is_arg_with_complex_dtype _ = False"

text \<open>\<^verbatim>\<open>_get_aten_name\<close>. The second argument of \<open>OpOverloadPacket\<close> is the name of
  the packet's \<^verbatim>\<open>default\<close> overload, the first says whether the packet is
  \<^verbatim>\<open>torch.ops.aten.sym_size\<close>.\<close>

fun builtin_node_arg_supported :: "fx_arg \<Rightarrow> error + bool" where
  "builtin_node_arg_supported (FxInt i) = Inr True"
| "builtin_node_arg_supported (FxFloat r) = Inr True"
| "builtin_node_arg_supported (FxNode None) = Inl KeyError"
| "builtin_node_arg_supported (FxNode (Some MetaSymBool)) = Inr True"
| "builtin_node_arg_supported (FxNode (Some MetaSymInt)) = Inr True"
| "builtin_node_arg_supported (FxNode (Some MetaSymFloat)) = Inr True"
| "builtin_node_arg_supported (FxNode (Some _)) = Inr False"
| "builtin_node_arg_supported _ = Inr False"

fun check_builtin_node_args :: "fx_arg list \<Rightarrow> error option" where
  "check_builtin_node_args [] = None"
| "check_builtin_node_args (node_arg # rest) =
     (case builtin_node_arg_supported node_arg of
        Inl e \<Rightarrow> Some e
      | Inr False \<Rightarrow> Some UnsupportedNodeArg
      | Inr True \<Rightarrow> check_builtin_node_args rest)"

fun get_aten_name :: "Node \<Rightarrow> error + OpName" where
  "get_aten_name node =
     (case node_target node of
        operator_getitem \<Rightarrow> Inr (from_name_parts ''aten'' ''getitem'' None)
      | OpOverloadPacket is_sym_size aten_op_default \<Rightarrow>
          (if \<not> is_sym_size then Inl UnsupportedOverloadPacket else Inr aten_op_default)
      | BuiltinFunctionType builtin_name \<Rightarrow>
          (case check_builtin_node_args (node_args node) of
             Some e \<Rightarrow> Inl e
           | None \<Rightarrow> Inr builtin_name)
      | OpOverload overload_name \<Rightarrow> Inr overload_name
      | OtherTarget \<Rightarrow> Inl UnsupportedOperator)"

section \<open>The dispatcher\<close>

text \<open>\<^verbatim>\<open>_filter_or_keep_complex\<close>.\<close>

definition filter_or_keep_complex :: "Node \<Rightarrow> ONNXFunction list \<Rightarrow> error + ONNXFunction list" where
  "filter_or_keep_complex node default_and_custom_functions =
     (if list_ex is_arg_with_complex_dtype (node_args node) then
        (let fs = filter is_complex default_and_custom_functions
         in if fs = [] then Inl CannotFindComplexSymbolicFunction else Inr fs)
      else
        (let fs = filter (\<lambda>func. \<not> is_complex func) default_and_custom_functions
         in if fs = [] then Inl CannotFindRealSymbolicFunction else Inr fs))"

text \<open>\<^verbatim>\<open>get_function_overloads\<close>. The first component of the result is the list of
  warnings logged during the call.\<close>

definition overload_not_found_warning :: string where
  "overload_not_found_warning = ''### The operator overload is not found in onnx registry!''"

definition get_function_overloads ::
  "OnnxRegistry \<Rightarrow> Node \<Rightarrow> string list \<times> (error + ONNXFunction list)" where
  "get_function_overloads onnx_registry node =
     (case get_aten_name node of
        Inl e \<Rightarrow> ([], Inl e)
      | Inr internal_opname \<Rightarrow>
          (case get_op_functions onnx_registry (namespace internal_opname)
                  (op_name internal_opname) (overload internal_opname) of
             Some function_group \<Rightarrow> ([], filter_or_keep_complex node function_group)
           | None \<Rightarrow>
               (case get_op_functions onnx_registry (namespace internal_opname)
                       (op_name internal_opname) None of
                  Some function_group \<Rightarrow>
                    ([overload_not_found_warning], filter_or_keep_complex node function_group)
                | None \<Rightarrow> ([], Inl CannotFindSymbolicFunction))))"

text \<open>
  \<^verbatim>\<open>_find_the_perfect_or_nearest_match_onnxfunction\<close>. \<open>perfect_match_scan\<close> is the
  loop over \<^verbatim>\<open>reversed(default_and_custom_functions)\<close>: it returns the function of the
  first perfect match (\<open>Inl\<close>), or the dictionary \<^verbatim>\<open>overload_match_ranking\<close> when the
  loop ends (\<open>Inr\<close>); an error raised by a schema check ends the call.
\<close>

fun perfect_match_scan ::
  "ONNXFunction list \<Rightarrow> pyval list \<Rightarrow> (string \<times> pyval) list \<Rightarrow>
   (ONNXFunction \<times> int option) list \<Rightarrow>
   error + (OnnxFunction + (ONNXFunction \<times> int option) list)" where
  "perfect_match_scan [] onnx_args onnx_kwargs overload_match_ranking =
     Inr (Inr overload_match_ranking)"
| "perfect_match_scan (symbolic_function # rest) onnx_args onnx_kwargs overload_match_ranking =
     (case perfect_match_inputs (onnx_function symbolic_function) onnx_args onnx_kwargs of
        Inl e \<Rightarrow> Inl e
      | Inr (is_perfect, match_score) \<Rightarrow>
          if is_perfect then Inr (Inl (onnx_function symbolic_function))
          else perfect_match_scan rest onnx_args onnx_kwargs
                 (AList.update symbolic_function match_score overload_match_ranking))"

text \<open>\<^verbatim>\<open>list.index\<close>: the position of the first element equal to \<open>k\<close>. It is called on
  keys of the ranking only, which are all elements of the list.\<close>

definition index :: "'a list \<Rightarrow> 'a \<Rightarrow> nat" where
  "index xs k = length (takeWhile (\<lambda>x. x \<noteq> k) xs)"

text \<open>\<^verbatim>\<open>sorted(xs, key=key, reverse=True)\<close>: a stable sort in descending order, which
  Python computes as the reverse of the stable ascending sort of the reversed list.\<close>

definition sorted_reverse :: "('a \<Rightarrow> 'k::linorder) \<Rightarrow> 'a list \<Rightarrow> 'a list" where
  "sorted_reverse key xs = rev (sort_key key (rev xs))"

text \<open>The sort key of a ranked candidate: its score \<^verbatim>\<open>overload_match_ranking[k]\<close>,
  \<^verbatim>\<open>k.is_custom\<close> and \<^verbatim>\<open>default_and_custom_functions.index(k)\<close>. Python compares the
  tuples lexicographically, with \<^verbatim>\<open>False < True\<close>. The ranking is held as the list of
  its items, so the score of a key is the second component of its item.\<close>

definition ranking_key :: "ONNXFunction list \<Rightarrow> ONNXFunction \<times> int \<Rightarrow> int \<times> bool \<times> nat" where
  "ranking_key default_and_custom_functions item =
     (snd item, is_custom (fst item), index default_and_custom_functions (fst item))"

text \<open>The dictionary comprehension that drops the candidates without a score.\<close>

definition scored_candidates :: "(ONNXFunction \<times> int option) list \<Rightarrow> (ONNXFunction \<times> int) list" where
  "scored_candidates ranking =
     concat (map (\<lambda>(k, v). case v of None \<Rightarrow> [] | Some score \<Rightarrow> [(k, score)]) ranking)"

definition find_the_perfect_or_nearest_match_onnxfunction ::
  "ONNXFunction list \<Rightarrow> pyval list \<Rightarrow> (string \<times> pyval) list \<Rightarrow> error + OnnxFunction" where
  "find_the_perfect_or_nearest_match_onnxfunction default_and_custom_functions onnx_args onnx_kwargs =
     (case perfect_match_scan (rev default_and_custom_functions) onnx_args onnx_kwargs [] of
        Inl e \<Rightarrow> Inl e
      | Inr (Inl perfect) \<Rightarrow> Inr perfect
      | Inr (Inr ranking) \<Rightarrow>
          (let overload_match_ranking = scored_candidates ranking
           in if overload_match_ranking = [] then Inl CannotFindAnySymbolicFunction
              else
                (case sorted_reverse (ranking_key default_and_custom_functions)
                        overload_match_ranking of
                   [] \<Rightarrow> Inl IndexError
                 | (symbolic_function, score) # _ \<Rightarrow> Inr (onnx_function symbolic_function))))"

text \<open>\<^verbatim>\<open>dispatch\<close>: the warnings logged, and the selected function or the error.\<close>

definition dispatch ::
  "OnnxRegistry \<Rightarrow> Node \<Rightarrow> pyval list \<Rightarrow> (string \<times> pyval) list \<Rightarrow>
   string list \<times> (error + OnnxFunction)" where
  "dispatch onnx_registry node onnx_args onnx_kwargs =
     (case get_function_overloads onnx_registry node of
        (warnings, Inl e) \<Rightarrow> (warnings, Inl e)
      | (warnings, Inr default_and_custom_functions) \<Rightarrow>
          (warnings,
           find_the_perfect_or_nearest_match_onnxfunction default_and_custom_functions
             onnx_args onnx_kwargs))"


section \<open>Example signatures\<close>

text \<open>Signatures and candidates on which the theorems below are evaluated. A parameter
  without a default carries the marker object of the signature library as its default.\<close>

definition input_param :: "string \<Rightarrow> ParamSchema" where
  "input_param nm =
     \<lparr>param_name = nm, param_default = PObject ''_EmptyDefault'', param_required = True,
      is_input = True, is_variadic_input = False\<rparr>"

definition optional_input_param :: "string \<Rightarrow> ParamSchema" where
  "optional_input_param nm =
     \<lparr>param_name = nm, param_default = PObject ''_EmptyDefault'', param_required = False,
      is_input = True, is_variadic_input = False\<rparr>"

definition attribute_param :: "string \<Rightarrow> pyval \<Rightarrow> bool \<Rightarrow> ParamSchema" where
  "attribute_param nm dflt req =
     \<lparr>param_name = nm, param_default = dflt, param_required = req,
      is_input = False, is_variadic_input = False\<rparr>"

text \<open>\<^verbatim>\<open>def f(self: T) with T = {tensor(float)}\<close>, under the name \<open>nm\<close>.\<close>

definition aten_unary :: "string \<Rightarrow> OnnxFunction" where
  "aten_unary nm =
     \<lparr>function_name = nm,
      param_schemas = [input_param ''self''],
      op_schema_inputs = [\<lparr>formal_name = ''self'', type_str = ''T''\<rparr>],
      op_schema_type_constraints = [(''T'', [''tensor(float)''])],
      op_schema_attributes = []\<rparr>"

text \<open>\<^verbatim>\<open>def f(self: T, other: T) with T = {tensor(float)}\<close>.\<close>

definition aten_binary :: "string \<Rightarrow> OnnxFunction" where
  "aten_binary nm =
     \<lparr>function_name = nm,
      param_schemas = [input_param ''self'', input_param ''other''],
      op_schema_inputs = [\<lparr>formal_name = ''self'', type_str = ''T''\<rparr>,
                          \<lparr>formal_name = ''other'', type_str = ''T''\<rparr>],
      op_schema_type_constraints = [(''T'', [''tensor(float)''])],
      op_schema_attributes = []\<rparr>"

text \<open>\<^verbatim>\<open>def aten_reshape_like(self: T, dims: Sequence[int])\<close>: an attribute of kind
  \<^verbatim>\<open>INTS\<close> without a default.\<close>

definition aten_reshape_like :: OnnxFunction where
  "aten_reshape_like =
     \<lparr>function_name = ''aten_reshape_like'',
      param_schemas = [input_param ''self'',
                       attribute_param ''dims'' (PObject ''_EmptyDefault'') True],
      op_schema_inputs = [\<lparr>formal_name = ''self'', type_str = ''T''\<rparr>],
      op_schema_type_constraints = [(''T'', [''tensor(float)''])],
      op_schema_attributes =
        [(''dims'', \<lparr>attr_type = AttrType_INTS, default_value_defined = False\<rparr>)]\<rparr>"

text \<open>A custom, real-valued candidate for \<^verbatim>\<open>aten::op\<close>.\<close>

definition custom_candidate :: "OnnxFunction \<Rightarrow> ONNXFunction" where
  "custom_candidate f =
     \<lparr>onnx_function = f, op_full_name = ''aten::op'', is_custom = True, is_complex = False\<rparr>"

section \<open>The scoring rule in the words of the specification\<close>

text \<open>
  The specification has one table from the type of a runtime value to an attribute
  kind, "with the sequence case using the first element's type", and scores a candidate
  that passed the count and name check by: "start at 0; add +1 per declared input whose
  compatible-type intersection with its constraint is non-empty; subtract 1 per declared
  attribute whose runtime value-type does not map to the declared attribute kind".
\<close>

fun spec_attribute_kind :: "pyval \<Rightarrow> AttrType option" where
  "spec_attribute_kind (PList (x # xs)) =
     from_python_type_to_onnx_attribute_type (type_of_pyval x) True"
| "spec_attribute_kind (PTuple (x # xs)) =
     from_python_type_to_onnx_attribute_type (type_of_pyval x) True"
| "spec_attribute_kind v = from_python_type_to_onnx_attribute_type (type_of_pyval v) False"

definition spec_input_compatible ::
  "(string \<times> string set) list \<Rightarrow> FormalParameter \<times> pyval \<Rightarrow> bool" where
  "spec_input_compatible tc p =
     (case (map_of tc (type_str (fst p)), find_onnx_data_type (snd p)) of
        (Some allowed_types, Inr compatible_types) \<Rightarrow> allowed_types \<inter> compatible_types \<noteq> {}
      | _ \<Rightarrow> False)"

definition spec_attribute_mismatch :: "(string \<times> pyval) list \<Rightarrow> string \<times> Attribute \<Rightarrow> bool" where
  "spec_attribute_mismatch function_attributes p =
     (case map_of function_attributes (fst p) of
        None \<Rightarrow> True
      | Some v \<Rightarrow> spec_attribute_kind v \<noteq> Some (attr_type (snd p)))"

definition spec_match_score :: "OnnxFunction \<Rightarrow> pyval list \<Rightarrow> (string \<times> pyval) list \<Rightarrow> int" where
  "spec_match_score onnxfunction inputs function_attributes =
     int (length (filter (spec_input_compatible (type_constraints onnxfunction))
                    (zip (op_schema_inputs onnxfunction) inputs)))
     - int (length (filter (spec_attribute_mismatch function_attributes)
                      (attributes onnxfunction)))"

text \<open>What the attribute loop of \<^verbatim>\<open>_record_matching_score\<close> counts: a declared
  attribute whose value has a type that the table of scalar types does not map to the
  declared kind. The type of a list or a tuple is no key of that table.\<close>

definition scalar_attribute_mismatch :: "(string \<times> pyval) list \<Rightarrow> string \<times> Attribute \<Rightarrow> bool" where
  "scalar_attribute_mismatch function_attributes p =
     (case map_of function_attributes (fst p) of
        None \<Rightarrow> True
      | Some v \<Rightarrow>
          from_python_type_to_onnx_attribute_type (type_of_pyval v) False \<noteq> Some (attr_type (snd p)))"

section \<open>Further examples: signatures, registries and call sites\<close>

text \<open>\<^verbatim>\<open>def aten_optional_bias(X: T, Y: Optional[T1])\<close>: the allowed set of the second
  input holds the optional form of its type.\<close>

definition aten_optional_bias :: OnnxFunction where
  "aten_optional_bias =
     \<lparr>function_name = ''aten_optional_bias'',
      param_schemas = [input_param ''X'', optional_input_param ''Y''],
      op_schema_inputs = [\<lparr>formal_name = ''X'', type_str = ''T''\<rparr>,
                          \<lparr>formal_name = ''Y'', type_str = ''T1''\<rparr>],
      op_schema_type_constraints =
        [(''T'', [''tensor(float)'']),
         (''T1'', [''tensor(int64)'', ''optional(tensor(int64))''])],
      op_schema_attributes = []\<rparr>"

text \<open>\<^verbatim>\<open>def aten_with_default(X: T, a: int = 3)\<close>, the example of the class docstring
  of the schema checker.\<close>

definition aten_with_default :: OnnxFunction where
  "aten_with_default =
     \<lparr>function_name = ''aten_with_default'',
      param_schemas = [input_param ''X'', attribute_param ''a'' (PInt 3) False],
      op_schema_inputs = [\<lparr>formal_name = ''X'', type_str = ''T''\<rparr>],
      op_schema_type_constraints = [(''T'', [''tensor(float)''])],
      op_schema_attributes =
        [(''a'', \<lparr>attr_type = AttrType_INT, default_value_defined = True\<rparr>)]\<rparr>"

text \<open>A built-in candidate for \<^verbatim>\<open>aten::op\<close>, real or complex.\<close>

definition builtin_candidate :: "OnnxFunction \<Rightarrow> bool \<Rightarrow> ONNXFunction" where
  "builtin_candidate f complex_variant =
     \<lparr>onnx_function = f, op_full_name = ''aten::op'', is_custom = False,
      is_complex = complex_variant\<rparr>"

definition aten_op_name :: OpName where
  "aten_op_name = from_name_parts ''aten'' ''op'' None"

text \<open>Three call sites of \<^verbatim>\<open>aten::op\<close>: with a real tensor, with a complex tensor, and
  with a real tensor under the overload \<^verbatim>\<open>Tensor_mode\<close>.\<close>

definition real_tensor_node :: Node where
  "real_tensor_node =
     \<lparr>node_target = OpOverload aten_op_name,
      node_args = [FxNode (Some (MetaTensor False)), FxOther]\<rparr>"

definition complex_tensor_node :: Node where
  "complex_tensor_node =
     \<lparr>node_target = OpOverload aten_op_name,
      node_args = [FxNode (Some (MetaTensor True))]\<rparr>"

definition tensor_mode_node :: Node where
  "tensor_mode_node =
     \<lparr>node_target = OpOverload (from_name_parts ''aten'' ''op'' (Some ''Tensor_mode'')),
      node_args = [FxNode (Some (MetaTensor False))]\<rparr>"

text \<open>Registries for \<^verbatim>\<open>aten::op\<close>: the custom functions \<open>A\<close> (one input) and \<open>B\<close> (two
  inputs); \<open>A\<close>, \<open>C\<close> (one input each) and \<open>B\<close>; a real and a complex built-in.\<close>

definition registry_unary_binary :: OnnxRegistry where
  "registry_unary_binary =
     register_op (register_op Map.empty (aten_unary ''A'') ''aten'' ''op'' None False ''aten::op'')
       (aten_binary ''B'') ''aten'' ''op'' None False ''aten::op''"

definition registry_three :: OnnxRegistry where
  "registry_three =
     register_op
       (register_op
          (register_op Map.empty (aten_unary ''A'') ''aten'' ''op'' None False ''aten::op'')
          (aten_unary ''C'') ''aten'' ''op'' None False ''aten::op'')
       (aten_binary ''B'') ''aten'' ''op'' None False ''aten::op''"

definition registry_real_complex :: OnnxRegistry where
  "registry_real_complex =
     register
       (register Map.empty aten_op_name (builtin_candidate (aten_unary ''real'') False))
       aten_op_name (builtin_candidate (aten_unary ''complex'') True)"

section \<open>The registry lookup with its fallback\<close>

text \<open>The candidate list that \<^verbatim>\<open>get_function_overloads\<close> passes to
  \<^verbatim>\<open>_filter_or_keep_complex\<close>: the entry of the exact name, or else the entry of the
  name without its overload.\<close>

definition lookup_with_fallback :: "OnnxRegistry \<Rightarrow> OpName \<Rightarrow> ONNXFunction list option" where
  "lookup_with_fallback onnx_registry internal_opname =
     (case get_op_functions onnx_registry (namespace internal_opname) (op_name internal_opname)
             (overload internal_opname) of
        Some function_group \<Rightarrow> Some function_group
      | None \<Rightarrow>
          get_op_functions onnx_registry (namespace internal_opname) (op_name internal_opname) None)"

section \<open>Evaluation lemmas\<close>

lemmas table_defs =
  from_torch_dtype_to_onnx_dtype_str_def TORCH_DTYPE_TO_COMPATIBLE_ONNX_TYPE_STRINGS_def
  is_optional_onnx_dtype_str_def OPTIONAL_ONNX_DTYPE_STR_def

lemmas checker_defs =
  perfect_match_inputs_def count_and_names_match_def
  separate_input_attributes_from_arguments_def attributes_def
  type_constraints_def record_matching_score_def is_attribute_def match_scalar_attribute_def

lemmas param_defs = input_param_def optional_input_param_def attribute_param_def

lemmas eval_defs = checker_defs table_defs param_defs

lemmas registry_defs =
  get_function_overloads_def register_op_def register_def get_op_functions_def
  from_name_parts_def filter_or_keep_complex_def aten_op_name_def lookup_with_fallback_def

lemma custom_candidate_sel:
  "onnx_function (custom_candidate f) = f"
  "is_custom (custom_candidate f)"
  "\<not> is_complex (custom_candidate f)"
  by (simp_all add: custom_candidate_def)

lemma builtin_candidate_sel:
  "onnx_function (builtin_candidate f c) = f"
  "\<not> is_custom (builtin_candidate f c)"
  "is_complex (builtin_candidate f c) = c"
  by (simp_all add: builtin_candidate_def)

lemma custom_candidate_eq: "custom_candidate f = custom_candidate g \<longleftrightarrow> f = g"
  by (simp add: custom_candidate_def)

lemma aten_unary_eq: "aten_unary a = aten_unary b \<longleftrightarrow> a = b"
  by (simp add: aten_unary_def)

lemma aten_unary_int64_not_perfect:
  "perfect_match_inputs (aten_unary nm) [PTensor (Some torch_int64)] [] = Inr (False, Some 0)"
  by (simp add: eval_defs aten_unary_def)

lemma aten_unary_float_perfect:
  "perfect_match_inputs (aten_unary nm) (PTensor (Some torch_float32) # others) []
     = Inr (True, Some 1)"
  by (simp add: eval_defs aten_unary_def)

lemma aten_unary_complex_perfect:
  "perfect_match_inputs (aten_unary nm) [PTensor (Some torch_complex64)] [] = Inr (True, Some 1)"
  by (simp add: eval_defs aten_unary_def)

lemma aten_binary_one_argument:
  "perfect_match_inputs (aten_binary nm) [PTensor (Some torch_float32)] [] = Inr (False, Some 1)"
  by (simp add: eval_defs aten_binary_def)

lemma aten_binary_two_arguments:
  "perfect_match_inputs (aten_binary nm) [PTensor (Some torch_float32), PTensor (Some torch_float32)] []
     = Inr (True, Some 2)"
  by (simp add: eval_defs aten_binary_def)

lemma aten_binary_unknown_argument:
  "perfect_match_inputs (aten_binary nm) [PTensor (Some torch_float32), PObject ''device''] []
     = Inl UnknownInputType"
  by (simp add: eval_defs aten_binary_def)

lemma registry_unary_binary_lookup:
  "lookup_with_fallback registry_unary_binary aten_op_name
     = Some [custom_candidate (aten_unary ''A''), custom_candidate (aten_binary ''B'')]"
  "get_function_overloads registry_unary_binary real_tensor_node
     = ([], Inr [custom_candidate (aten_unary ''A''), custom_candidate (aten_binary ''B'')])"
  by (simp_all add: registry_defs registry_unary_binary_def real_tensor_node_def
      custom_candidate_def)

section \<open>The perfect-match scan and the ranking\<close>

lemma perfect_match_scan_first:
  assumes "\<forall>b \<in> set later. \<exists>score. perfect_match_inputs (onnx_function b) onnx_args onnx_kwargs = Inr (False, score)"
    and "perfect_match_inputs (onnx_function c) onnx_args onnx_kwargs = Inr (True, score_c)"
  shows "perfect_match_scan (later @ c # earlier) onnx_args onnx_kwargs ranking = Inr (Inl (onnx_function c))"
  using assms
proof (induction later arbitrary: ranking)
  case Nil
  then show ?case by simp
next
  case (Cons b later)
  then obtain score where "perfect_match_inputs (onnx_function b) onnx_args onnx_kwargs = Inr (False, score)"
    by auto
  with Cons show ?case by simp
qed

lemma keys_update: "fst ` set (AList.update k v al) = insert k (fst ` set al)"
  by (induction al) auto

lemma perfect_match_scan_perfect:
  "perfect_match_scan fs onnx_args onnx_kwargs ranking = Inr (Inl f) \<Longrightarrow>
     \<exists>c \<in> set fs. onnx_function c = f"
proof (induction fs arbitrary: ranking)
  case Nil
  then show ?case by simp
next
  case (Cons c fs)
  show ?case
  proof (cases "perfect_match_inputs (onnx_function c) onnx_args onnx_kwargs")
    case (Inl e)
    with Cons.prems show ?thesis by simp
  next
    case (Inr r)
    obtain is_perfect score where r: "r = (is_perfect, score)" by (cases r)
    show ?thesis
    proof (cases is_perfect)
      case True
      with Inr r Cons.prems show ?thesis by simp
    next
      case False
      with Inr r Cons.prems
      have "perfect_match_scan fs onnx_args onnx_kwargs (AList.update c score ranking) = Inr (Inl f)"
        by simp
      then have "\<exists>c \<in> set fs. onnx_function c = f" by (rule Cons.IH)
      then show ?thesis by auto
    qed
  qed
qed

lemma perfect_match_scan_ranking:
  "perfect_match_scan fs onnx_args onnx_kwargs ranking = Inr (Inr ranking') \<Longrightarrow>
     fst ` set ranking' \<subseteq> set fs \<union> fst ` set ranking"
proof (induction fs arbitrary: ranking)
  case Nil
  then show ?case by auto
next
  case (Cons c fs)
  show ?case
  proof (cases "perfect_match_inputs (onnx_function c) onnx_args onnx_kwargs")
    case (Inl e)
    with Cons.prems show ?thesis by simp
  next
    case (Inr r)
    obtain is_perfect score where r: "r = (is_perfect, score)" by (cases r)
    show ?thesis
    proof (cases is_perfect)
      case True
      with Inr r Cons.prems show ?thesis by simp
    next
      case False
      with Inr r Cons.prems
      have "perfect_match_scan fs onnx_args onnx_kwargs (AList.update c score ranking)
              = Inr (Inr ranking')"
        by simp
      then have "fst ` set ranking' \<subseteq> set fs \<union> fst ` set (AList.update c score ranking)"
        by (rule Cons.IH)
      then show ?thesis by (auto simp: keys_update)
    qed
  qed
qed

lemma set_scored_candidates:
  "set (scored_candidates ranking) = {(k, score). (k, Some score) \<in> set ranking}"
  by (induction ranking) (auto simp: scored_candidates_def split: option.splits)

lemma scored_candidates_keys: "fst ` set (scored_candidates ranking) \<subseteq> fst ` set ranking"
  by (force simp: set_scored_candidates)

lemma set_sorted_reverse: "set (sorted_reverse key xs) = set xs"
  by (simp add: sorted_reverse_def)

lemma find_result_is_candidate:
  assumes "find_the_perfect_or_nearest_match_onnxfunction fs onnx_args onnx_kwargs = Inr f"
  shows "\<exists>c \<in> set fs. onnx_function c = f"
proof (cases "perfect_match_scan (rev fs) onnx_args onnx_kwargs []")
  case (Inl e)
  with assms show ?thesis by (simp add: find_the_perfect_or_nearest_match_onnxfunction_def)
next
  case (Inr r)
  show ?thesis
  proof (cases r)
    case (Inl perfect)
    with Inr assms have "perfect = f"
      by (simp add: find_the_perfect_or_nearest_match_onnxfunction_def)
    with Inr Inl perfect_match_scan_perfect [of "rev fs" onnx_args onnx_kwargs "[]" f]
    show ?thesis by simp
  next
    case (Inr ranking)
    from \<open>perfect_match_scan (rev fs) onnx_args onnx_kwargs [] = Inr r\<close> Inr
    have keys: "fst ` set ranking \<subseteq> set fs"
      using perfect_match_scan_ranking [of "rev fs" onnx_args onnx_kwargs "[]" ranking] by simp
    from assms \<open>perfect_match_scan (rev fs) onnx_args onnx_kwargs [] = Inr r\<close> Inr
    obtain c score rest where
      sorted: "sorted_reverse (ranking_key fs) (scored_candidates ranking) = (c, score) # rest"
      and f: "f = onnx_function c"
      by (auto simp: find_the_perfect_or_nearest_match_onnxfunction_def Let_def
          split: if_splits list.splits)
    from sorted have "(c, score) \<in> set (sorted_reverse (ranking_key fs) (scored_candidates ranking))"
      by simp
    then have "(c, score) \<in> set (scored_candidates ranking)" by (simp add: set_sorted_reverse)
    then have "c \<in> fst ` set (scored_candidates ranking)" by force
    with scored_candidates_keys keys have "c \<in> set fs" by blast
    with f show ?thesis by blast
  qed
qed

section \<open>The errors of the schema checker\<close>

lemma find_onnx_data_type_errors:
  "find_onnx_data_type v = Inl e \<Longrightarrow> e = KeyError \<or> e = UnknownInputType"
proof (induction v rule: find_onnx_data_type.induct)
  case (7 xs)
  then show ?case by (auto split: if_splits list.splits sum.splits)
next
  case (8 xs)
  then show ?case by (auto split: if_splits list.splits sum.splits)
qed (auto simp: from_torch_dtype_to_onnx_dtype_str_def split: option.splits)

lemma separate_step_errors:
  "separate_step attrs fill i param st = Inl e \<Longrightarrow> e = KeyError"
  by (cases st) (auto split: if_splits option.splits sum.splits bool.splits)

lemma separate_loop_errors:
  "separate_loop attrs fill i params st = Inl e \<Longrightarrow> e = KeyError"
proof (induction params arbitrary: i st)
  case Nil
  then show ?case by simp
next
  case (Cons param params)
  then show ?case
    by (cases "separate_step attrs fill i param st") (auto dest: separate_step_errors)
qed

lemma separate_errors:
  "separate_input_attributes_from_arguments attrs params args kwargs fill = Inl e \<Longrightarrow> e = KeyError"
  by (auto simp: separate_input_attributes_from_arguments_def split: sum.splits
      dest: separate_loop_errors)

lemma check_input_types_errors:
  "check_input_types tc zs ok = Inl e \<Longrightarrow> e = KeyError \<or> e = UnknownInputType"
proof (induction zs arbitrary: ok)
  case Nil
  then show ?case by simp
next
  case (Cons z zs)
  obtain si v where z: "z = (si, v)" by (cases z)
  from Cons.prems Cons.IH show ?case unfolding z
    by (auto split: sum.splits option.splits dest: find_onnx_data_type_errors)
qed

lemma score_inputs_errors:
  "score_inputs tc zs sc = Inl e \<Longrightarrow> e = KeyError \<or> e = UnknownInputType"
proof (induction zs arbitrary: sc)
  case Nil
  then show ?case by simp
next
  case (Cons z zs)
  obtain si v where z: "z = (si, v)" by (cases z)
  from Cons.prems Cons.IH show ?case unfolding z
    by (auto split: sum.splits option.splits dest: find_onnx_data_type_errors)
qed

lemma match_onnx_attribute_type_errors:
  "match_onnx_attribute_type attrs n v is_seq = Inl e \<Longrightarrow> e = KeyError"
  by (induction attrs n v is_seq rule: match_onnx_attribute_type.induct)
     (auto simp: match_scalar_attribute_def split: option.splits)

lemma check_attribute_types_errors:
  "check_attribute_types attrs fattrs ok = Inl e \<Longrightarrow> e = KeyError"
proof (induction fattrs arbitrary: ok)
  case Nil
  then show ?case by simp
next
  case (Cons z zs)
  obtain n v where z: "z = (n, v)" by (cases z)
  from Cons.prems Cons.IH show ?case unfolding z
    by (auto split: sum.splits dest: match_onnx_attribute_type_errors)
qed

lemma score_attributes_errors:
  "score_attributes attrs fattrs sc = Inl e \<Longrightarrow> e = KeyError"
proof (induction attrs arbitrary: sc)
  case Nil
  then show ?case by simp
next
  case (Cons z zs)
  obtain n a where z: "z = (n, a)" by (cases z)
  from Cons.prems Cons.IH show ?case unfolding z
    by (auto split: option.splits)
qed

lemma perfect_match_inputs_errors:
  assumes "perfect_match_inputs f args kwargs = Inl e"
  shows "e = KeyError \<or> e = UnknownInputType"
  using assms
  by (auto simp: perfect_match_inputs_def record_matching_score_def
      split: sum.splits prod.splits if_splits
      dest: separate_errors check_input_types_errors check_attribute_types_errors
        score_inputs_errors score_attributes_errors)

lemma perfect_match_scan_errors:
  "perfect_match_scan fs args kwargs ranking = Inl e \<Longrightarrow> e = KeyError \<or> e = UnknownInputType"
proof (induction fs arbitrary: ranking)
  case Nil
  then show ?case by simp
next
  case (Cons c fs)
  show ?case
  proof (cases "perfect_match_inputs (onnx_function c) args kwargs")
    case (Inl e')
    with Cons.prems have "e' = e" by simp
    with Inl show ?thesis by (auto dest: perfect_match_inputs_errors)
  next
    case (Inr r)
    obtain is_perfect score where r: "r = (is_perfect, score)" by (cases r)
    from Cons.prems Inr r Cons.IH show ?thesis by (cases is_perfect) auto
  qed
qed

lemma find_errors:
  assumes "find_the_perfect_or_nearest_match_onnxfunction fs args kwargs = Inl e"
  shows "e = KeyError \<or> e = UnknownInputType \<or> e = CannotFindAnySymbolicFunction \<or> e = IndexError"
proof (cases "perfect_match_scan (rev fs) args kwargs []")
  case (Inl e')
  with assms have "e' = e" by (simp add: find_the_perfect_or_nearest_match_onnxfunction_def)
  with Inl show ?thesis by (auto dest: perfect_match_scan_errors)
next
  case (Inr r)
  with assms show ?thesis
    by (cases r) (auto simp: find_the_perfect_or_nearest_match_onnxfunction_def Let_def
        split: if_splits list.splits)
qed

section \<open>Lookup and partition\<close>

lemma filter_or_keep_complex_result:
  "filter_or_keep_complex node fs =
     (if \<forall>c \<in> set fs. is_complex c \<noteq> list_ex is_arg_with_complex_dtype (node_args node)
      then Inl (if list_ex is_arg_with_complex_dtype (node_args node)
                then CannotFindComplexSymbolicFunction else CannotFindRealSymbolicFunction)
      else Inr (filter (\<lambda>c. is_complex c = list_ex is_arg_with_complex_dtype (node_args node)) fs))"
  by (auto simp: filter_or_keep_complex_def Let_def filter_empty_conv intro: filter_cong)

lemma get_function_overloads_group:
  assumes "get_aten_name node = Inr internal_opname"
    and "lookup_with_fallback onnx_registry internal_opname = Some function_group"
  shows "snd (get_function_overloads onnx_registry node) = filter_or_keep_complex node function_group"
  using assms
  by (auto simp: get_function_overloads_def lookup_with_fallback_def split: option.splits)

lemma dispatch_snd:
  "snd (dispatch onnx_registry node onnx_args onnx_kwargs) =
     (case snd (get_function_overloads onnx_registry node) of
        Inl e \<Rightarrow> Inl e
      | Inr fs \<Rightarrow> find_the_perfect_or_nearest_match_onnxfunction fs onnx_args onnx_kwargs)"
  by (cases "get_function_overloads onnx_registry node")
     (auto simp: dispatch_def split: sum.splits)

section \<open>Invariants of argument separation\<close>

lemma separate_step_cases:
  assumes "separate_step attrs fill i p (a, ins, oattrs, ckw) = Inr (a', ins', oattrs', ckw')"
  shows "a' = (if is_variadic_input p then [] else a)"
    and "\<exists>more. ins' = ins @ more"
    and "oattrs' = oattrs \<or> (\<exists>v. oattrs' = AList.update (param_name p) v oattrs)"
    and "ckw' = ckw \<or> ckw' = AList.delete (param_name p) ckw"
  using assms
  by (auto split: if_splits option.splits sum.splits bool.splits)

lemma separate_loop_append:
  "separate_loop attrs fill i (pre @ post) st =
     (case separate_loop attrs fill i pre st of
        Inl e \<Rightarrow> Inl e
      | Inr st' \<Rightarrow> separate_loop attrs fill (i + length pre) post st')"
proof (induction pre arbitrary: i st)
  case Nil
  then show ?case by simp
next
  case (Cons p pre)
  show ?case
    by (cases "separate_step attrs fill i p st") (simp_all add: Cons.IH split: sum.splits)
qed

lemma separate_loop_at:
  "separate_loop attrs fill 0 (pre @ param # post) st =
     (case separate_loop attrs fill 0 pre st of
        Inl e \<Rightarrow> Inl e
      | Inr st1 \<Rightarrow>
          (case separate_step attrs fill (length pre) param st1 of
             Inl e \<Rightarrow> Inl e
           | Inr st2 \<Rightarrow> separate_loop attrs fill (Suc (length pre)) post st2))"
  by (simp add: separate_loop_append del: separate_step.simps split: sum.splits)

lemma separate_loop_args:
  "separate_loop attrs fill i params (a, ins, oattrs, ckw) = Inr (a', ins', oattrs', ckw') \<Longrightarrow>
     a' = (if list_ex is_variadic_input params then [] else a)"
proof (induction params arbitrary: i a ins oattrs ckw)
  case Nil
  then show ?case by simp
next
  case (Cons p params)
  from Cons.prems obtain st where step: "separate_step attrs fill i p (a, ins, oattrs, ckw) = Inr st"
    and rest: "separate_loop attrs fill (Suc i) params st = Inr (a', ins', oattrs', ckw')"
    by (auto split: sum.splits)
  obtain a1 ins1 oattrs1 ckw1 where st: "st = (a1, ins1, oattrs1, ckw1)" by (cases st)
  from step st have a1: "a1 = (if is_variadic_input p then [] else a)"
    using separate_step_cases(1) by blast
  from rest st have "a' = (if list_ex is_variadic_input params then [] else a1)"
    using Cons.IH [of "Suc i" a1 ins1 oattrs1 ckw1] by simp
  with a1 show ?case by simp
qed

lemma separate_loop_inputs:
  "separate_loop attrs fill i params (a, ins, oattrs, ckw) = Inr (a', ins', oattrs', ckw') \<Longrightarrow>
     \<exists>more. ins' = ins @ more"
proof (induction params arbitrary: i a ins oattrs ckw)
  case Nil
  then show ?case by simp
next
  case (Cons p params)
  from Cons.prems obtain st where step: "separate_step attrs fill i p (a, ins, oattrs, ckw) = Inr st"
    and rest: "separate_loop attrs fill (Suc i) params st = Inr (a', ins', oattrs', ckw')"
    by (auto split: sum.splits)
  obtain a1 ins1 oattrs1 ckw1 where st: "st = (a1, ins1, oattrs1, ckw1)" by (cases st)
  from step st obtain more1 where "ins1 = ins @ more1"
    using separate_step_cases(2) by blast
  moreover from rest st obtain more2 where "ins' = ins1 @ more2"
    using Cons.IH by blast
  ultimately show ?case by simp
qed

lemma separate_loop_attribute_kept:
  "separate_loop attrs fill i params (a, ins, oattrs, ckw) = Inr (a', ins', oattrs', ckw') \<Longrightarrow>
     k \<notin> param_name ` set params \<Longrightarrow> map_of oattrs' k = map_of oattrs k"
proof (induction params arbitrary: i a ins oattrs ckw)
  case Nil
  then show ?case by simp
next
  case (Cons p params)
  from Cons.prems obtain st where step: "separate_step attrs fill i p (a, ins, oattrs, ckw) = Inr st"
    and rest: "separate_loop attrs fill (Suc i) params st = Inr (a', ins', oattrs', ckw')"
    by (auto split: sum.splits)
  obtain a1 ins1 oattrs1 ckw1 where st: "st = (a1, ins1, oattrs1, ckw1)" by (cases st)
  from Cons.prems(2) have k: "k \<noteq> param_name p" "k \<notin> param_name ` set params" by auto
  from step st have "oattrs1 = oattrs \<or> (\<exists>v. oattrs1 = AList.update (param_name p) v oattrs)"
    using separate_step_cases(3) by blast
  with k(1) have "map_of oattrs1 k = map_of oattrs k" by (auto simp: update_conv')
  moreover from rest st k(2) have "map_of oattrs' k = map_of oattrs1 k"
    using Cons.IH by blast
  ultimately show ?case by simp
qed

lemma separate_loop_kwargs_kept:
  "separate_loop attrs fill i params (a, ins, oattrs, ckw) = Inr (a', ins', oattrs', ckw') \<Longrightarrow>
     k \<notin> param_name ` set params \<Longrightarrow> map_of ckw' k = map_of ckw k"
proof (induction params arbitrary: i a ins oattrs ckw)
  case Nil
  then show ?case by simp
next
  case (Cons p params)
  from Cons.prems obtain st where step: "separate_step attrs fill i p (a, ins, oattrs, ckw) = Inr st"
    and rest: "separate_loop attrs fill (Suc i) params st = Inr (a', ins', oattrs', ckw')"
    by (auto split: sum.splits)
  obtain a1 ins1 oattrs1 ckw1 where st: "st = (a1, ins1, oattrs1, ckw1)" by (cases st)
  from Cons.prems(2) have k: "k \<noteq> param_name p" "k \<notin> param_name ` set params" by auto
  from step st have "ckw1 = ckw \<or> ckw1 = AList.delete (param_name p) ckw"
    using separate_step_cases(4) by blast
  with k(1) have "map_of ckw1 k = map_of ckw k" by (auto simp: delete_conv')
  moreover from rest st k(2) have "map_of ckw' k = map_of ckw1 k"
    using Cons.IH by blast
  ultimately show ?case by simp
qed

lemma separate_loop_kwargs_subset:
  "separate_loop attrs fill i params (a, ins, oattrs, ckw) = Inr (a', ins', oattrs', ckw') \<Longrightarrow>
     set ckw' \<subseteq> set ckw \<and> (distinct (map fst ckw) \<longrightarrow> distinct (map fst ckw'))"
proof (induction params arbitrary: i a ins oattrs ckw)
  case Nil
  then show ?case by simp
next
  case (Cons p params)
  from Cons.prems obtain st where step: "separate_step attrs fill i p (a, ins, oattrs, ckw) = Inr st"
    and rest: "separate_loop attrs fill (Suc i) params st = Inr (a', ins', oattrs', ckw')"
    by (auto split: sum.splits)
  obtain a1 ins1 oattrs1 ckw1 where st: "st = (a1, ins1, oattrs1, ckw1)" by (cases st)
  from step st have "ckw1 = ckw \<or> ckw1 = AList.delete (param_name p) ckw"
    using separate_step_cases(4) by blast
  then have "set ckw1 \<subseteq> set ckw \<and> (distinct (map fst ckw) \<longrightarrow> distinct (map fst ckw1))"
  proof
    assume "ckw1 = ckw"
    then show ?thesis by simp
  next
    assume del: "ckw1 = AList.delete (param_name p) ckw"
    have "set (AList.delete (param_name p) ckw) \<subseteq> set ckw" by (auto simp: AList.delete_eq)
    with del show ?thesis by (simp add: distinct_delete)
  qed
  moreover from rest st
  have "set ckw' \<subseteq> set ckw1 \<and> (distinct (map fst ckw1) \<longrightarrow> distinct (map fst ckw'))"
    using Cons.IH by blast
  ultimately show ?case by blast
qed

lemma separate_loop_kwargs_absent:
  assumes "separate_loop attrs fill i params (a, ins, oattrs, ckw) = Inr (a', ins', oattrs', ckw')"
    and "map_of ckw k = None"
  shows "map_of ckw' k = None"
proof (rule ccontr)
  assume "map_of ckw' k \<noteq> None"
  then obtain v where "map_of ckw' k = Some v" by auto
  then have "(k, v) \<in> set ckw'" by (rule map_of_SomeD)
  moreover from assms(1) have "set ckw' \<subseteq> set ckw" using separate_loop_kwargs_subset by blast
  ultimately have "k \<in> fst ` set ckw" by force
  with assms(2) show False by (simp add: map_of_eq_None_iff)
qed

lemma pick_up_extra_kwargs_map_of:
  "distinct (map fst ckw) \<Longrightarrow>
   map_of (pick_up_extra_kwargs ckw oattrs) k =
     (case map_of oattrs k of
        Some x \<Rightarrow> Some x
      | None \<Rightarrow> (case map_of ckw k of
                   Some v \<Rightarrow> if v = PNone then None else Some v
                 | None \<Rightarrow> None))"
proof (induction ckw arbitrary: oattrs)
  case Nil
  then show ?case by (simp split: option.splits)
next
  case (Cons e ckw)
  obtain k' v' where e: "e = (k', v')" by (cases e)
  from Cons.prems e have d: "distinct (map fst ckw)" and notin: "k' \<notin> fst ` set ckw" by auto
  from notin have none: "map_of ckw k' = None" by (simp add: map_of_eq_None_iff)
  have in_keys: "(k' \<in> fst ` set oattrs) = (map_of oattrs k' \<noteq> None)"
    by (simp add: map_of_eq_None_iff)
  show ?case
    unfolding e using none in_keys
    by (auto simp: Cons.IH [OF d] update_conv' split: option.splits)
qed

lemma pick_up_extra_kwargs_keeps:
  "map_of oattrs k = Some x \<Longrightarrow> map_of (pick_up_extra_kwargs ckw oattrs) k = Some x"
proof (induction ckw arbitrary: oattrs)
  case Nil
  then show ?case by simp
next
  case (Cons e ckw)
  obtain k' v' where e: "e = (k', v')" by (cases e)
  show ?case
  proof (cases "k' \<notin> fst ` set oattrs \<and> v' \<noteq> PNone")
    case True
    with Cons.prems have "k' \<noteq> k" by (auto simp: map_of_eq_None_iff [symmetric])
    with Cons.prems have "map_of (AList.update k' v' oattrs) k = Some x" by (simp add: update_conv')
    then have "map_of (pick_up_extra_kwargs ckw (AList.update k' v' oattrs)) k = Some x"
      by (rule Cons.IH)
    with True show ?thesis unfolding e by simp
  next
    case False
    from Cons.prems have "map_of (pick_up_extra_kwargs ckw oattrs) k = Some x" by (rule Cons.IH)
    with False show ?thesis unfolding e by auto
  qed
qed

lemma separate_step_delete:
  assumes "param_name p \<noteq> k"
  shows "separate_step attrs fill i p (a, ins, oattrs, AList.delete k ckw) =
     (case separate_step attrs fill i p (a, ins, oattrs, ckw) of
        Inl e \<Rightarrow> Inl e
      | Inr (a', ins', oattrs', ckw') \<Rightarrow> Inr (a', ins', oattrs', AList.delete k ckw'))"
  using assms by (simp add: delete_twist split: option.splits sum.splits bool.splits)

lemma separate_loop_delete:
  assumes "k \<notin> param_name ` set params"
  shows "separate_loop attrs fill i params (a, ins, oattrs, AList.delete k ckw) =
     (case separate_loop attrs fill i params (a, ins, oattrs, ckw) of
        Inl e \<Rightarrow> Inl e
      | Inr (a', ins', oattrs', ckw') \<Rightarrow> Inr (a', ins', oattrs', AList.delete k ckw'))"
  using assms
proof (induction params arbitrary: i a ins oattrs ckw)
  case Nil
  then show ?case by simp
next
  case (Cons p params)
  then have p: "param_name p \<noteq> k" and rest: "k \<notin> param_name ` set params" by auto
  show ?case
  proof (cases "separate_step attrs fill i p (a, ins, oattrs, ckw)")
    case (Inl e)
    then show ?thesis by (simp add: separate_step_delete [OF p] del: separate_step.simps)
  next
    case (Inr st)
    obtain a1 ins1 oattrs1 ckw1 where st: "st = (a1, ins1, oattrs1, ckw1)" by (cases st)
    from Inr st show ?thesis
      by (simp add: separate_step_delete [OF p] Cons.IH [OF rest] del: separate_step.simps)
  qed
qed

lemma pick_up_extra_kwargs_delete:
  "\<forall>v. (k, v) \<in> set ckw \<longrightarrow> v = PNone \<Longrightarrow>
     pick_up_extra_kwargs (AList.delete k ckw) oattrs = pick_up_extra_kwargs ckw oattrs"
proof (induction ckw arbitrary: oattrs)
  case Nil
  then show ?case by simp
next
  case (Cons e ckw)
  obtain k' v' where e: "e = (k', v')" by (cases e)
  from Cons.prems have rest: "\<forall>v. (k, v) \<in> set ckw \<longrightarrow> v = PNone" by simp
  show ?case
  proof (cases "k' = k")
    case True
    with Cons.prems e have "v' = PNone" by simp
    with True show ?thesis unfolding e by (simp add: Cons.IH [OF rest])
  next
    case False
    then show ?thesis unfolding e by (simp add: Cons.IH [OF rest])
  qed
qed

lemma separate_delete_null_keyword:
  assumes "k \<notin> param_name ` set params"
    and "\<forall>v. (k, v) \<in> set kwargs \<longrightarrow> v = PNone"
  shows "separate_input_attributes_from_arguments attrs params args (AList.delete k kwargs) fill
    = separate_input_attributes_from_arguments attrs params args kwargs fill"
proof (cases "separate_loop attrs fill 0 params (args, [], [], kwargs)")
  case (Inl e)
  then show ?thesis
    by (simp add: separate_input_attributes_from_arguments_def separate_loop_delete [OF assms(1)])
next
  case (Inr st)
  obtain a1 ins1 oattrs1 ckw1 where st: "st = (a1, ins1, oattrs1, ckw1)" by (cases st)
  from Inr st have "set ckw1 \<subseteq> set kwargs" using separate_loop_kwargs_subset by blast
  with assms(2) have "\<forall>v. (k, v) \<in> set ckw1 \<longrightarrow> v = PNone" by blast
  then have "pick_up_extra_kwargs (AList.delete k ckw1) oattrs1 = pick_up_extra_kwargs ckw1 oattrs1"
    by (rule pick_up_extra_kwargs_delete)
  with Inr st show ?thesis
    by (simp add: separate_input_attributes_from_arguments_def separate_loop_delete [OF assms(1)])
qed

lemma check_attribute_types_False:
  "check_attribute_types attrs fattrs False = Inr b \<Longrightarrow> \<not> b"
proof (induction fattrs)
  case Nil
  then show ?case by simp
next
  case (Cons e fattrs)
  obtain n v where e: "e = (n, v)" by (cases e)
  from Cons.prems Cons.IH show ?case unfolding e
    by (cases "match_onnx_attribute_type attrs n v False") simp_all
qed

lemma check_attribute_types_null:
  "(n, PNone) \<in> set fattrs \<Longrightarrow> check_attribute_types attrs fattrs ok = Inr b \<Longrightarrow> \<not> b"
proof (induction fattrs arbitrary: ok)
  case Nil
  then show ?case by simp
next
  case (Cons e fattrs)
  obtain n' v' where e: "e = (n', v')" by (cases e)
  show ?case
  proof (cases "e = (n, PNone)")
    case True
    with Cons.prems(2) have "check_attribute_types attrs fattrs False = Inr b" by simp
    then show ?thesis by (rule check_attribute_types_False)
  next
    case False
    with Cons.prems(1) have mem: "(n, PNone) \<in> set fattrs" by simp
    from Cons.prems(2) obtain ok' where "check_attribute_types attrs fattrs ok' = Inr b"
      unfolding e by (cases "match_onnx_attribute_type attrs n' v' False") simp_all
    with mem show ?thesis by (rule Cons.IH)
  qed
qed

lemma perfect_match_inputs_Inr:
  assumes "perfect_match_inputs f args kwargs = Inr (is_perfect, score)"
  shows "\<exists>function_inputs function_attributes.
    separate_input_attributes_from_arguments (attributes f) (param_schemas f) args kwargs True
       = Inr (function_inputs, function_attributes)
    \<and> (score \<noteq> None) = count_and_names_match f function_inputs function_attributes
    \<and> (is_perfect \<longrightarrow>
         (\<exists>ok. check_attribute_types (attributes f) function_attributes ok = Inr True))"
proof (cases "separate_input_attributes_from_arguments (attributes f) (param_schemas f) args kwargs True")
  case (Inl e)
  with assms show ?thesis by (simp add: perfect_match_inputs_def)
next
  case (Inr r)
  obtain fi fa where r: "r = (fi, fa)" by (cases r)
  show ?thesis
  proof (cases "count_and_names_match f fi fa")
    case False
    with assms Inr r have "\<not> is_perfect" "score = None"
      by (simp_all add: perfect_match_inputs_def)
    with Inr r False show ?thesis by simp
  next
    case True
    from assms Inr r True obtain ok sc where
      "check_attribute_types (attributes f) fa ok = Inr is_perfect" "score = Some sc"
      by (auto simp: perfect_match_inputs_def split: sum.splits)
    with Inr r True show ?thesis by auto
  qed
qed

section \<open>The ranking of pairwise distinct candidates\<close>

text \<open>When no candidate occurs twice in the list and no candidate is a perfect match,
  the ranking holds every candidate once, \<^verbatim>\<open>list.index\<close> is the position of a
  candidate, and the dispatcher returns a scored candidate whose key (score, is_custom,
  position) is the greatest.\<close>

lemma update_fresh_key: "k \<notin> fst ` set al \<Longrightarrow> AList.update k v al = al @ [(k, v)]"
  by (induction al) auto

lemma perfect_match_scan_distinct:
  assumes "distinct xs"
    and "set xs \<inter> fst ` set ranking = {}"
    and "\<forall>c \<in> set xs. perfect_match_inputs (onnx_function c) onnx_args onnx_kwargs = Inr (False, sc c)"
  shows "perfect_match_scan xs onnx_args onnx_kwargs ranking
    = Inr (Inr (ranking @ map (\<lambda>c. (c, sc c)) xs))"
  using assms
proof (induction xs arbitrary: ranking)
  case Nil
  then show ?case by simp
next
  case (Cons c xs)
  from Cons.prems(2) have fresh: "c \<notin> fst ` set ranking" by auto
  then have upd: "AList.update c (sc c) ranking = ranking @ [(c, sc c)]"
    by (rule update_fresh_key)
  from Cons.prems(1) have "distinct xs" by simp
  moreover from Cons.prems(1,2) have "set xs \<inter> fst ` set (ranking @ [(c, sc c)]) = {}" by auto
  moreover from Cons.prems(3)
  have "\<forall>c \<in> set xs. perfect_match_inputs (onnx_function c) onnx_args onnx_kwargs = Inr (False, sc c)"
    by simp
  ultimately have "perfect_match_scan xs onnx_args onnx_kwargs (ranking @ [(c, sc c)])
      = Inr (Inr ((ranking @ [(c, sc c)]) @ map (\<lambda>c. (c, sc c)) xs))"
    by (rule Cons.IH)
  moreover from Cons.prems(3)
  have "perfect_match_inputs (onnx_function c) onnx_args onnx_kwargs = Inr (False, sc c)" by simp
  ultimately show ?case by (simp add: upd)
qed

lemma sorted_reverse_head:
  assumes "sorted_reverse key zs = y # ys"
  shows "y \<in> set zs" and "\<forall>z \<in> set zs. key z \<le> key y"
proof -
  let ?l = "sort_key key (rev zs)"
  from assms have l: "?l = rev ys @ [y]"
    by (simp add: sorted_reverse_def rev_swap)
  have "set ?l = set zs" by simp
  with l show "y \<in> set zs" by auto
  have "sorted (map key ?l)" by (rule sorted_sort_key)
  with l have "\<forall>z \<in> set (rev ys). key z \<le> key y"
    by (simp add: sorted_append)
  moreover from l \<open>set ?l = set zs\<close> have "set zs = insert y (set ys)" by auto
  ultimately show "\<forall>z \<in> set zs. key z \<le> key y" by auto
qed

lemma index_nth: "distinct xs \<Longrightarrow> i < length xs \<Longrightarrow> index xs (xs ! i) = i"
proof (induction xs arbitrary: i)
  case Nil
  then show ?case by simp
next
  case (Cons x xs)
  show ?case
  proof (cases i)
    case 0
    then show ?thesis by (simp add: index_def)
  next
    case (Suc j)
    with Cons.prems have "xs ! j \<in> set xs" "x \<notin> set xs" by auto
    then have "x \<noteq> xs ! j" by auto
    with Suc Cons show ?thesis by (simp add: index_def)
  qed
qed

lemma nearest_match_distinct:
  assumes "distinct fs"
    and "\<forall>c \<in> set fs. perfect_match_inputs (onnx_function c) onnx_args onnx_kwargs = Inr (False, sc c)"
    and "c0 \<in> set fs" and "sc c0 \<noteq> None"
  shows "\<exists>c s. c \<in> set fs \<and> sc c = Some s
    \<and> find_the_perfect_or_nearest_match_onnxfunction fs onnx_args onnx_kwargs = Inr (onnx_function c)
    \<and> (\<forall>c' s'. c' \<in> set fs \<and> sc c' = Some s' \<longrightarrow>
          (s', is_custom c', index fs c') \<le> (s, is_custom c, index fs c))"
proof -
  let ?ranking = "map (\<lambda>c. (c, sc c)) (rev fs)"
  have scan: "perfect_match_scan (rev fs) onnx_args onnx_kwargs [] = Inr (Inr ([] @ ?ranking))"
    using assms(1,2) by (intro perfect_match_scan_distinct) simp_all
  have scored: "set (scored_candidates ?ranking) = {(c, s). c \<in> set fs \<and> sc c = Some s}"
    by (auto simp: set_scored_candidates)
  from assms(3,4) obtain s0 where "(c0, s0) \<in> set (scored_candidates ?ranking)"
    unfolding scored by auto
  then have nonempty: "scored_candidates ?ranking \<noteq> []" by auto
  then have "set (sorted_reverse (ranking_key fs) (scored_candidates ?ranking)) \<noteq> {}"
    by (simp add: set_sorted_reverse)
  then have "sorted_reverse (ranking_key fs) (scored_candidates ?ranking) \<noteq> []"
    by auto
  then obtain c s rest where
    head: "sorted_reverse (ranking_key fs) (scored_candidates ?ranking) = (c, s) # rest"
    by (cases "sorted_reverse (ranking_key fs) (scored_candidates ?ranking)") auto
  from sorted_reverse_head [OF head]
  have mem: "(c, s) \<in> set (scored_candidates ?ranking)"
    and top: "\<forall>z \<in> set (scored_candidates ?ranking). ranking_key fs z \<le> ranking_key fs (c, s)"
    by simp_all
  from mem have c: "c \<in> set fs" "sc c = Some s" unfolding scored by auto
  have result: "find_the_perfect_or_nearest_match_onnxfunction fs onnx_args onnx_kwargs
      = Inr (onnx_function c)"
    using scan nonempty head
    by (simp add: find_the_perfect_or_nearest_match_onnxfunction_def)
  have maximal: "(s', is_custom c', index fs c') \<le> (s, is_custom c, index fs c)"
    if "c' \<in> set fs \<and> sc c' = Some s'" for c' s'
  proof -
    from that have "(c', s') \<in> set (scored_candidates ?ranking)" unfolding scored by simp
    with top have "ranking_key fs (c', s') \<le> ranking_key fs (c, s)" by blast
    then show ?thesis by (simp add: ranking_key_def)
  qed
  from c result maximal show ?thesis by blast
qed

section \<open>Nearest-match selection\<close>

text \<open>
  Claim C1: in a nearest-match selection the dispatcher returns the implementation of
  the candidate that is maximal under the key (score, is_custom, position in the
  candidate list); among candidates equal in score and custom-ness the most recently
  registered one is selected.

  The implementation \<open>f\<close> is registered, then \<open>g\<close>, then \<open>f\<close> again, all custom and with
  the same signature; the call has no perfect match and both score 0. The two
  registrations of \<open>f\<close> are one key of the ranking, \<^verbatim>\<open>list.index\<close> gives it position 0,
  and the dispatcher returns \<open>g\<close>, although \<open>f\<close> holds the last position of the list.
\<close>

theorem nearest_match_repeated_registration:
  "find_the_perfect_or_nearest_match_onnxfunction
     [custom_candidate (aten_unary ''f''), custom_candidate (aten_unary ''g''),
      custom_candidate (aten_unary ''f'')]
     [PTensor (Some torch_int64)] []
   = Inr (aten_unary ''g'')"
proof -
  let ?f = "custom_candidate (aten_unary ''f'')" and ?g = "custom_candidate (aten_unary ''g'')"
  have scan: "perfect_match_scan (rev [?f, ?g, ?f]) [PTensor (Some torch_int64)] [] []
      = Inr (Inr [(?f, Some 0), (?g, Some 0)])"
    by (simp add: aten_unary_int64_not_perfect custom_candidate_sel custom_candidate_eq
        aten_unary_eq)
  have order: "sorted_reverse (ranking_key [?f, ?g, ?f]) [(?f, 0), (?g, 0)] = [(?g, 0), (?f, 0)]"
    by (simp add: sorted_reverse_def ranking_key_def index_def custom_candidate_sel
        custom_candidate_eq aten_unary_eq)
  show ?thesis
    unfolding find_the_perfect_or_nearest_match_onnxfunction_def scan
    by (simp add: scored_candidates_def order custom_candidate_sel)
qed

section \<open>Perfect-match selection\<close>

text \<open>
  Claim C2, as stated: whenever the candidate list after the partition contains a
  candidate that passes the perfect-match test, the dispatcher returns the first such
  candidate in reverse registration order.

  \<open>A\<close> takes one input and \<open>B\<close>, registered after it, takes two. The call has a float
  tensor and an object of no recognized shape as positional arguments. \<open>A\<close> ignores the
  second argument and is a perfect match; the scan tries \<open>B\<close> first, whose check of the
  second input raises the unknown-input-type error, and the dispatch call fails.
\<close>

theorem perfect_match_blocked_by_error:
  "perfect_match_inputs (aten_unary ''A'') [PTensor (Some torch_float32), PObject ''device''] []
     = Inr (True, Some 1)
   \<and> get_function_overloads registry_unary_binary real_tensor_node
     = ([], Inr [custom_candidate (aten_unary ''A''), custom_candidate (aten_binary ''B'')])
   \<and> dispatch registry_unary_binary real_tensor_node
       [PTensor (Some torch_float32), PObject ''device''] [] = ([], Inl UnknownInputType)"
proof -
  have "dispatch registry_unary_binary real_tensor_node
       [PTensor (Some torch_float32), PObject ''device''] [] = ([], Inl UnknownInputType)"
    by (simp add: dispatch_def registry_unary_binary_lookup
        find_the_perfect_or_nearest_match_onnxfunction_def aten_binary_unknown_argument
        custom_candidate_sel)
  with aten_unary_float_perfect registry_unary_binary_lookup(2) show ?thesis by simp
qed

text \<open>
  Claim C2 (amended): when a candidate of the list after the partition passes the
  perfect-match test, and the test returns false, without raising an error, for every
  candidate registered after it, the dispatcher returns the implementation of that
  candidate; the candidates registered before it and the scores have no influence.
\<close>

theorem perfect_match_most_recent:
  assumes "get_function_overloads onnx_registry node = (warnings, Inr (earlier @ c # later))"
    and "\<forall>b \<in> set later. \<exists>score.
           perfect_match_inputs (onnx_function b) onnx_args onnx_kwargs = Inr (False, score)"
    and "perfect_match_inputs (onnx_function c) onnx_args onnx_kwargs = Inr (True, score_c)"
  shows "dispatch onnx_registry node onnx_args onnx_kwargs = (warnings, Inr (onnx_function c))"
proof -
  have "\<forall>b \<in> set (rev later). \<exists>score.
           perfect_match_inputs (onnx_function b) onnx_args onnx_kwargs = Inr (False, score)"
    using assms(2) by simp
  then have "perfect_match_scan (rev later @ c # rev earlier) onnx_args onnx_kwargs []
      = Inr (Inl (onnx_function c))"
    using assms(3) by (rule perfect_match_scan_first)
  then have "find_the_perfect_or_nearest_match_onnxfunction (earlier @ c # later) onnx_args onnx_kwargs
      = Inr (onnx_function c)"
    by (simp add: find_the_perfect_or_nearest_match_onnxfunction_def)
  with assms(1) show ?thesis by (simp add: dispatch_def)
qed

theorem perfect_match_most_recent_witness:
  "dispatch registry_three real_tensor_node [PTensor (Some torch_float32)] []
     = ([], Inr (aten_unary ''C''))"
proof -
  have lookup: "get_function_overloads registry_three real_tensor_node
     = ([], Inr ([custom_candidate (aten_unary ''A'')] @ custom_candidate (aten_unary ''C'')
                  # [custom_candidate (aten_binary ''B'')]))"
    by (simp add: registry_defs registry_three_def real_tensor_node_def custom_candidate_def)
  have B: "\<forall>b \<in> set [custom_candidate (aten_binary ''B'')]. \<exists>score.
      perfect_match_inputs (onnx_function b) [PTensor (Some torch_float32)] [] = Inr (False, score)"
    by (simp add: aten_binary_one_argument custom_candidate_sel)
  have C: "perfect_match_inputs (onnx_function (custom_candidate (aten_unary ''C'')))
      [PTensor (Some torch_float32)] [] = Inr (True, Some 1)"
    by (simp add: aten_unary_float_perfect custom_candidate_sel)
  show ?thesis
    using perfect_match_most_recent [OF lookup B C] by (simp add: custom_candidate_sel)
qed

section \<open>The complex and real partition\<close>

text \<open>
  Claim C3: when some positional argument of the node is complex-valued (a list counts
  as complex exactly when its first element does), every candidate retained for
  matching, and hence the selected implementation, has \<^verbatim>\<open>is_complex\<close> set; when none is,
  only candidates with \<^verbatim>\<open>is_complex\<close> unset are retained; and when no candidate of the
  looked-up list is of the wanted kind, dispatch fails with the error of the missing
  complex or real variant instead of returning an implementation.

  The looked-up list is the registry entry of the resolved name, or that of the name
  without its overload; the retained list is the second component of
  \<open>get_function_overloads\<close>.
\<close>

theorem complex_partition:
  assumes "get_aten_name node = Inr internal_opname"
    and "lookup_with_fallback onnx_registry internal_opname = Some function_group"
  shows "(\<forall>retained. snd (get_function_overloads onnx_registry node) = Inr retained \<longrightarrow>
            retained = filter (\<lambda>c. is_complex c = list_ex is_arg_with_complex_dtype (node_args node))
                         function_group
            \<and> (\<forall>c \<in> set retained.
                  is_complex c = list_ex is_arg_with_complex_dtype (node_args node)))
       \<and> (\<forall>f. snd (dispatch onnx_registry node onnx_args onnx_kwargs) = Inr f \<longrightarrow>
            (\<exists>c \<in> set function_group. onnx_function c = f
               \<and> is_complex c = list_ex is_arg_with_complex_dtype (node_args node)))
       \<and> ((\<forall>c \<in> set function_group.
              is_complex c \<noteq> list_ex is_arg_with_complex_dtype (node_args node)) \<longrightarrow>
            snd (dispatch onnx_registry node onnx_args onnx_kwargs) =
              Inl (if list_ex is_arg_with_complex_dtype (node_args node)
                   then CannotFindComplexSymbolicFunction else CannotFindRealSymbolicFunction))
       \<and> (\<forall>items. is_arg_with_complex_dtype (FxList items) =
            (items \<noteq> [] \<and> is_arg_with_complex_dtype (hd items)))"
proof -
  let ?wanted = "list_ex is_arg_with_complex_dtype (node_args node)"
  have overloads: "snd (get_function_overloads onnx_registry node)
      = filter_or_keep_complex node function_group"
    using assms by (rule get_function_overloads_group)
  have retained: "retained = filter (\<lambda>c. is_complex c = ?wanted) function_group
      \<and> (\<forall>c \<in> set retained. is_complex c = ?wanted)"
    if "snd (get_function_overloads onnx_registry node) = Inr retained" for retained
    using that unfolding overloads filter_or_keep_complex_result
    by (auto split: if_splits)
  have selected: "\<exists>c \<in> set function_group. onnx_function c = f \<and> is_complex c = ?wanted"
    if "snd (dispatch onnx_registry node onnx_args onnx_kwargs) = Inr f" for f
  proof -
    from that obtain fs where fs: "snd (get_function_overloads onnx_registry node) = Inr fs"
      and f: "find_the_perfect_or_nearest_match_onnxfunction fs onnx_args onnx_kwargs = Inr f"
      unfolding dispatch_snd by (auto split: sum.splits)
    from f obtain c where c: "c \<in> set fs" "onnx_function c = f"
      using find_result_is_candidate by blast
    from retained [OF fs] have "fs = filter (\<lambda>c. is_complex c = ?wanted) function_group"
      by (rule conjunct1)
    with c(1) have "c \<in> set function_group" "is_complex c = ?wanted" by auto
    with c(2) show ?thesis by (intro bexI [of _ c] conjI)
  qed
  have empty: "snd (dispatch onnx_registry node onnx_args onnx_kwargs) =
      Inl (if ?wanted then CannotFindComplexSymbolicFunction else CannotFindRealSymbolicFunction)"
    if "\<forall>c \<in> set function_group. is_complex c \<noteq> ?wanted"
    using that unfolding dispatch_snd overloads filter_or_keep_complex_result by simp
  have first: "is_arg_with_complex_dtype (FxList items) =
      (items \<noteq> [] \<and> is_arg_with_complex_dtype (hd items))" for items
    by (cases items) simp_all
  from retained have 1: "\<forall>retained. snd (get_function_overloads onnx_registry node) = Inr retained \<longrightarrow>
      retained = filter (\<lambda>c. is_complex c = ?wanted) function_group
      \<and> (\<forall>c \<in> set retained. is_complex c = ?wanted)"
    by (intro allI impI)
  from selected have 2: "\<forall>f. snd (dispatch onnx_registry node onnx_args onnx_kwargs) = Inr f \<longrightarrow>
      (\<exists>c \<in> set function_group. onnx_function c = f \<and> is_complex c = ?wanted)"
    by (intro allI impI)
  from empty have 3: "(\<forall>c \<in> set function_group. is_complex c \<noteq> ?wanted) \<longrightarrow>
      snd (dispatch onnx_registry node onnx_args onnx_kwargs) =
        Inl (if ?wanted then CannotFindComplexSymbolicFunction else CannotFindRealSymbolicFunction)"
    by (intro impI)
  from first have 4: "\<forall>items. is_arg_with_complex_dtype (FxList items) =
      (items \<noteq> [] \<and> is_arg_with_complex_dtype (hd items))"
    by (intro allI)
  show ?thesis by (rule conjI [OF 1 conjI [OF 2 conjI [OF 3 4]]])
qed

theorem complex_partition_witness:
  "snd (get_function_overloads registry_real_complex complex_tensor_node)
     = Inr [builtin_candidate (aten_unary ''complex'') True]
   \<and> snd (dispatch registry_real_complex complex_tensor_node [PTensor (Some torch_complex64)] [])
     = Inr (aten_unary ''complex'')
   \<and> (\<exists>c \<in> set [builtin_candidate (aten_unary ''real'') False,
                  builtin_candidate (aten_unary ''complex'') True].
         onnx_function c = aten_unary ''complex'' \<and> is_complex c)
   \<and> snd (dispatch registry_unary_binary complex_tensor_node [PTensor (Some torch_complex64)] [])
     = Inl CannotFindComplexSymbolicFunction"
proof -
  let ?args = "[PTensor (Some torch_complex64)]"
  let ?group = "[builtin_candidate (aten_unary ''real'') False,
      builtin_candidate (aten_unary ''complex'') True]"
  have name: "get_aten_name complex_tensor_node = Inr aten_op_name"
    by (simp add: complex_tensor_node_def)
  have wanted: "list_ex is_arg_with_complex_dtype (node_args complex_tensor_node)"
    by (simp add: complex_tensor_node_def)
  have group: "lookup_with_fallback registry_real_complex aten_op_name = Some ?group"
    by (simp add: registry_defs registry_real_complex_def)
  have overloads: "snd (get_function_overloads registry_real_complex complex_tensor_node)
      = Inr [builtin_candidate (aten_unary ''complex'') True]"
    by (simp add: registry_defs registry_real_complex_def complex_tensor_node_def
        builtin_candidate_sel)
  have selected: "snd (dispatch registry_real_complex complex_tensor_node ?args [])
      = Inr (aten_unary ''complex'')"
    by (simp add: dispatch_snd overloads find_the_perfect_or_nearest_match_onnxfunction_def
        builtin_candidate_sel aten_unary_complex_perfect)
  note inst = complex_partition [OF name group, of ?args "[]"]
  from inst have "\<forall>f. snd (dispatch registry_real_complex complex_tensor_node ?args []) = Inr f \<longrightarrow>
      (\<exists>c \<in> set ?group. onnx_function c = f
         \<and> is_complex c = list_ex is_arg_with_complex_dtype (node_args complex_tensor_node))"
    by (elim conjE)
  with selected wanted
  have candidate: "\<exists>c \<in> set ?group. onnx_function c = aten_unary ''complex'' \<and> is_complex c"
    by simp
  have none: "\<forall>c \<in> set [custom_candidate (aten_unary ''A''), custom_candidate (aten_binary ''B'')].
      is_complex c \<noteq> list_ex is_arg_with_complex_dtype (node_args complex_tensor_node)"
    using wanted by (simp add: custom_candidate_sel)
  note inst' = complex_partition [OF name registry_unary_binary_lookup(1), of ?args "[]"]
  from inst' have "(\<forall>c \<in> set [custom_candidate (aten_unary ''A''), custom_candidate (aten_binary ''B'')].
        is_complex c \<noteq> list_ex is_arg_with_complex_dtype (node_args complex_tensor_node)) \<longrightarrow>
      snd (dispatch registry_unary_binary complex_tensor_node ?args []) =
        Inl (if list_ex is_arg_with_complex_dtype (node_args complex_tensor_node)
             then CannotFindComplexSymbolicFunction else CannotFindRealSymbolicFunction)"
    by (elim conjE)
  with none wanted
  have failed: "snd (dispatch registry_unary_binary complex_tensor_node ?args [])
      = Inl CannotFindComplexSymbolicFunction"
    by simp
  from overloads selected candidate failed show ?thesis by (intro conjI)
qed

section \<open>The default-overload fallback\<close>

text \<open>
  Claim C4: when the resolved identity has no exact registry entry, the dispatcher
  looks the name up again without its overload; if that lookup succeeds, it logs one
  warning and goes on with the partition and the matching on the fallback candidates;
  and dispatch fails with the unregistered-operator error if that lookup fails too, and
  only then.
\<close>

theorem default_overload_fallback:
  assumes "get_aten_name node = Inr internal_opname"
    and "get_op_functions onnx_registry (namespace internal_opname) (op_name internal_opname)
           (overload internal_opname) = None"
  shows "(\<forall>function_group.
            get_op_functions onnx_registry (namespace internal_opname) (op_name internal_opname) None
              = Some function_group \<longrightarrow>
            dispatch onnx_registry node onnx_args onnx_kwargs =
              ([overload_not_found_warning],
               case filter_or_keep_complex node function_group of
                 Inl e \<Rightarrow> Inl e
               | Inr fs \<Rightarrow> find_the_perfect_or_nearest_match_onnxfunction fs onnx_args onnx_kwargs))
       \<and> (get_op_functions onnx_registry (namespace internal_opname) (op_name internal_opname) None
              = None \<longrightarrow>
            dispatch onnx_registry node onnx_args onnx_kwargs = ([], Inl CannotFindSymbolicFunction))
       \<and> (snd (dispatch onnx_registry node onnx_args onnx_kwargs) = Inl CannotFindSymbolicFunction \<longrightarrow>
            get_op_functions onnx_registry (namespace internal_opname) (op_name internal_opname) None
              = None)"
proof -
  let ?fallback = "get_op_functions onnx_registry (namespace internal_opname)
      (op_name internal_opname) None"
  have found: "dispatch onnx_registry node onnx_args onnx_kwargs =
      ([overload_not_found_warning],
       case filter_or_keep_complex node function_group of
         Inl e \<Rightarrow> Inl e
       | Inr fs \<Rightarrow> find_the_perfect_or_nearest_match_onnxfunction fs onnx_args onnx_kwargs)"
    if "?fallback = Some function_group" for function_group
    using assms that by (simp add: dispatch_def get_function_overloads_def split: sum.splits)
  have missing: "dispatch onnx_registry node onnx_args onnx_kwargs
      = ([], Inl CannotFindSymbolicFunction)" if "?fallback = None"
    using assms that by (simp add: dispatch_def get_function_overloads_def)
  have only: "?fallback = None"
    if failed: "snd (dispatch onnx_registry node onnx_args onnx_kwargs) = Inl CannotFindSymbolicFunction"
  proof (rule ccontr)
    assume "?fallback \<noteq> None"
    then obtain function_group where fg: "?fallback = Some function_group" by auto
    show False
    proof (cases "filter_or_keep_complex node function_group")
      case (Inl e)
      with found [OF fg] failed have "e = CannotFindSymbolicFunction" by simp
      with Inl show False
        by (auto simp: filter_or_keep_complex_def Let_def split: if_splits)
    next
      case (Inr fs)
      with found [OF fg] failed
      have "find_the_perfect_or_nearest_match_onnxfunction fs onnx_args onnx_kwargs
          = Inl CannotFindSymbolicFunction" by simp
      then show False by (auto dest: find_errors)
    qed
  qed
  from found have 1: "\<forall>function_group. ?fallback = Some function_group \<longrightarrow>
      dispatch onnx_registry node onnx_args onnx_kwargs =
        ([overload_not_found_warning],
         case filter_or_keep_complex node function_group of
           Inl e \<Rightarrow> Inl e
         | Inr fs \<Rightarrow> find_the_perfect_or_nearest_match_onnxfunction fs onnx_args onnx_kwargs)"
    by (intro allI impI)
  from missing have 2: "?fallback = None \<longrightarrow>
      dispatch onnx_registry node onnx_args onnx_kwargs = ([], Inl CannotFindSymbolicFunction)"
    by (intro impI)
  from only have 3: "snd (dispatch onnx_registry node onnx_args onnx_kwargs)
      = Inl CannotFindSymbolicFunction \<longrightarrow> ?fallback = None"
    by (intro impI)
  show ?thesis by (rule conjI [OF 1 conjI [OF 2 3]])
qed

theorem default_overload_fallback_witness:
  "dispatch registry_unary_binary tensor_mode_node [PTensor (Some torch_float32)] []
     = ([overload_not_found_warning], Inr (aten_unary ''A''))
   \<and> dispatch Map.empty tensor_mode_node [PTensor (Some torch_float32)] []
     = ([], Inl CannotFindSymbolicFunction)"
proof -
  let ?nm = "from_name_parts ''aten'' ''op'' (Some ''Tensor_mode'')"
  let ?args = "[PTensor (Some torch_float32)]"
  let ?group = "[custom_candidate (aten_unary ''A''), custom_candidate (aten_binary ''B'')]"
  have name: "get_aten_name tensor_mode_node = Inr ?nm"
    by (simp add: tensor_mode_node_def)
  have exact: "get_op_functions registry_unary_binary (namespace ?nm) (op_name ?nm) (overload ?nm)
      = None"
    by (simp add: registry_defs registry_unary_binary_def)
  have fallback: "get_op_functions registry_unary_binary (namespace ?nm) (op_name ?nm) None
      = Some ?group"
    by (simp add: registry_defs registry_unary_binary_def custom_candidate_def)
  have partition: "filter_or_keep_complex tensor_mode_node ?group = Inr ?group"
    by (simp add: filter_or_keep_complex_def tensor_mode_node_def custom_candidate_sel)
  have matching: "find_the_perfect_or_nearest_match_onnxfunction ?group ?args []
      = Inr (aten_unary ''A'')"
    by (simp add: find_the_perfect_or_nearest_match_onnxfunction_def custom_candidate_sel
        aten_binary_one_argument aten_unary_float_perfect)
  note inst = default_overload_fallback [OF name exact, of ?args "[]"]
  from inst have "\<forall>function_group.
      get_op_functions registry_unary_binary (namespace ?nm) (op_name ?nm) None
        = Some function_group \<longrightarrow>
      dispatch registry_unary_binary tensor_mode_node ?args [] =
        ([overload_not_found_warning],
         case filter_or_keep_complex tensor_mode_node function_group of
           Inl e \<Rightarrow> Inl e
         | Inr fs \<Rightarrow> find_the_perfect_or_nearest_match_onnxfunction fs ?args [])"
    by (elim conjE)
  with fallback partition matching
  have found: "dispatch registry_unary_binary tensor_mode_node ?args []
      = ([overload_not_found_warning], Inr (aten_unary ''A''))"
    by simp
  have exact': "get_op_functions Map.empty (namespace ?nm) (op_name ?nm) (overload ?nm) = None"
    and fallback': "get_op_functions Map.empty (namespace ?nm) (op_name ?nm) None = None"
    by (simp_all add: get_op_functions_def)
  note inst' = default_overload_fallback [OF name exact', of ?args "[]"]
  from inst' have "get_op_functions Map.empty (namespace ?nm) (op_name ?nm) None = None \<longrightarrow>
      dispatch Map.empty tensor_mode_node ?args [] = ([], Inl CannotFindSymbolicFunction)"
    by (elim conjE)
  with fallback'
  have missing: "dispatch Map.empty tensor_mode_node ?args [] = ([], Inl CannotFindSymbolicFunction)"
    by simp
  from found missing show ?thesis by (intro conjI)
qed

section \<open>The recorded score\<close>

text \<open>The score that \<^verbatim>\<open>perfect_match_inputs\<close> records is the number of compatible
  inputs minus the number of attributes that \<open>scalar_attribute_mismatch\<close> counts; a
  candidate list without any score ends in the error of the nearest-match step.\<close>

lemma score_inputs_count:
  "score_inputs tc zs acc = Inr sc \<Longrightarrow>
     sc = acc + int (length (filter (spec_input_compatible tc) zs))"
proof (induction zs arbitrary: acc)
  case Nil
  then show ?case by simp
next
  case (Cons z zs)
  obtain si v where z: "z = (si, v)" by (cases z)
  from Cons.prems obtain compat allowed where
    c: "find_onnx_data_type v = Inr compat" and a: "map_of tc (type_str si) = Some allowed"
    and rest: "score_inputs tc zs (if allowed \<inter> compat \<noteq> {} then acc + 1 else acc) = Inr sc"
    unfolding z by (auto split: sum.splits option.splits)
  from rest have "sc = (if allowed \<inter> compat \<noteq> {} then acc + 1 else acc)
      + int (length (filter (spec_input_compatible tc) zs))"
    by (rule Cons.IH)
  moreover from c a have "spec_input_compatible tc (si, v) = (allowed \<inter> compat \<noteq> {})"
    by (simp add: spec_input_compatible_def)
  ultimately show ?case unfolding z by simp
qed

lemma score_attributes_count:
  "score_attributes attrs fa acc = Inr sc \<Longrightarrow>
     sc = acc - int (length (filter (scalar_attribute_mismatch fa) attrs))"
proof (induction attrs arbitrary: acc)
  case Nil
  then show ?case by simp
next
  case (Cons p attrs)
  obtain n a where p: "p = (n, a)" by (cases p)
  from Cons.prems obtain v where v: "map_of fa n = Some v"
    and rest: "score_attributes attrs fa
        (if from_python_type_to_onnx_attribute_type (type_of_pyval v) False \<noteq> Some (attr_type a)
         then acc - 1 else acc) = Inr sc"
    unfolding p by (auto split: option.splits)
  from rest have "sc = (if from_python_type_to_onnx_attribute_type (type_of_pyval v) False
        \<noteq> Some (attr_type a) then acc - 1 else acc)
      - int (length (filter (scalar_attribute_mismatch fa) attrs))"
    by (rule Cons.IH)
  moreover from v have "scalar_attribute_mismatch fa (n, a)
      = (from_python_type_to_onnx_attribute_type (type_of_pyval v) False \<noteq> Some (attr_type a))"
    by (simp add: scalar_attribute_mismatch_def)
  ultimately show ?case unfolding p by simp
qed

lemma recorded_match_score:
  assumes "perfect_match_inputs f args kwargs = Inr (is_perfect, Some sc)"
  shows "\<exists>function_inputs function_attributes.
    separate_input_attributes_from_arguments (attributes f) (param_schemas f) args kwargs True
      = Inr (function_inputs, function_attributes)
    \<and> count_and_names_match f function_inputs function_attributes
    \<and> sc = int (length (filter (spec_input_compatible (type_constraints f))
                    (zip (op_schema_inputs f) function_inputs)))
          - int (length (filter (scalar_attribute_mismatch function_attributes) (attributes f)))"
proof -
  from assms obtain fi fa where
    sep: "separate_input_attributes_from_arguments (attributes f) (param_schemas f) args kwargs True
      = Inr (fi, fa)"
    and ok: "count_and_names_match f fi fa"
    and rec: "record_matching_score f fi fa = Inr sc"
    by (auto simp: perfect_match_inputs_def split: sum.splits prod.splits if_splits)
  from rec obtain s1 where
    s1: "score_inputs (type_constraints f) (zip (op_schema_inputs f) fi) 0 = Inr s1"
    and s2: "score_attributes (attributes f) fa s1 = Inr sc"
    by (auto simp: record_matching_score_def split: sum.splits)
  from s1 have "s1 = 0 + int (length (filter (spec_input_compatible (type_constraints f))
      (zip (op_schema_inputs f) fi)))"
    by (rule score_inputs_count)
  moreover from s2 have "sc = s1 - int (length (filter (scalar_attribute_mismatch fa) (attributes f)))"
    by (rule score_attributes_count)
  ultimately show ?thesis using sep ok by auto
qed

lemma spec_attribute_kind_scalar:
  "(\<forall>x xs. v \<noteq> PList (x # xs) \<and> v \<noteq> PTuple (x # xs)) \<Longrightarrow>
     spec_attribute_kind v = from_python_type_to_onnx_attribute_type (type_of_pyval v) False"
  by (cases v rule: spec_attribute_kind.cases) auto

lemma perfect_match_scan_no_score:
  assumes "\<forall>c \<in> set xs. perfect_match_inputs (onnx_function c) onnx_args onnx_kwargs = Inr (False, None)"
    and "scored_candidates ranking = []"
  shows "\<exists>ranking'. perfect_match_scan xs onnx_args onnx_kwargs ranking = Inr (Inr ranking')
    \<and> scored_candidates ranking' = []"
  using assms
proof (induction xs arbitrary: ranking)
  case Nil
  then show ?case by simp
next
  case (Cons c xs)
  have "set (AList.update c None ranking) \<subseteq> insert (c, None) (set ranking)"
    by (induction ranking) auto
  moreover from Cons.prems(2) have "\<forall>k s. (k, Some s) \<notin> set ranking"
    using set_scored_candidates [of ranking] by auto
  ultimately have "\<forall>k s. (k, Some s) \<notin> set (AList.update c None ranking)" by auto
  then have "set (scored_candidates (AList.update c None ranking)) = {}"
    by (simp add: set_scored_candidates)
  then have "scored_candidates (AList.update c None ranking) = []" by simp
  moreover from Cons.prems(1)
  have "\<forall>c \<in> set xs. perfect_match_inputs (onnx_function c) onnx_args onnx_kwargs = Inr (False, None)"
    by simp
  ultimately have "\<exists>ranking'. perfect_match_scan xs onnx_args onnx_kwargs (AList.update c None ranking)
      = Inr (Inr ranking') \<and> scored_candidates ranking' = []"
    by (intro Cons.IH)
  moreover from Cons.prems(1)
  have "perfect_match_inputs (onnx_function c) onnx_args onnx_kwargs = Inr (False, None)" by simp
  ultimately show ?case by simp
qed

lemma no_scored_candidate:
  assumes "\<forall>c \<in> set fs. perfect_match_inputs (onnx_function c) onnx_args onnx_kwargs = Inr (False, None)"
  shows "find_the_perfect_or_nearest_match_onnxfunction fs onnx_args onnx_kwargs
    = Inl CannotFindAnySymbolicFunction"
proof -
  from assms
  have "\<forall>c \<in> set (rev fs). perfect_match_inputs (onnx_function c) onnx_args onnx_kwargs = Inr (False, None)"
    by simp
  moreover have "scored_candidates [] = []" by (simp add: scored_candidates_def)
  ultimately obtain ranking' where
    "perfect_match_scan (rev fs) onnx_args onnx_kwargs [] = Inr (Inr ranking')"
    "scored_candidates ranking' = []"
    using perfect_match_scan_no_score by blast
  then show ?thesis by (simp add: find_the_perfect_or_nearest_match_onnxfunction_def)
qed

section \<open>The match score\<close>

text \<open>
  Claim C5: the recorded match score of a candidate that passes the count and name
  check is the number of declared inputs with a compatible type minus the number of
  declared attributes whose runtime value-type does not map to the declared attribute
  kind.

  \<^verbatim>\<open>aten_reshape_like\<close> is called with an \<^verbatim>\<open>int64\<close> tensor and \<^verbatim>\<open>dims=[1, 2]\<close>. The call
  passes the count and name check. The input does not fit its constraint, and the list of
  integers maps to the declared kind \<^verbatim>\<open>INTS\<close>, so the specification's score is 0; the
  recorded score is -1, because \<^verbatim>\<open>_record_matching_score\<close> looks the type \<^verbatim>\<open>list\<close> itself
  up in the table of scalar types.
\<close>

theorem match_score_sequence_attribute:
  "perfect_match_inputs aten_reshape_like
     [PTensor (Some torch_int64), PList [PInt 1, PInt 2]] [] = Inr (False, Some (- 1))
   \<and> separate_input_attributes_from_arguments (attributes aten_reshape_like)
        (param_schemas aten_reshape_like)
        [PTensor (Some torch_int64), PList [PInt 1, PInt 2]] [] True
      = Inr ([PTensor (Some torch_int64)], [(''dims'', PList [PInt 1, PInt 2])])
   \<and> match_onnx_attribute_type (attributes aten_reshape_like) ''dims''
        (PList [PInt 1, PInt 2]) False = Inr True
   \<and> spec_match_score aten_reshape_like [PTensor (Some torch_int64)]
        [(''dims'', PList [PInt 1, PInt 2])] = 0"
  by (simp add: eval_defs aten_reshape_like_def spec_match_score_def
      spec_input_compatible_def spec_attribute_mismatch_def)

section \<open>Parameters that nothing supplies\<close>

text \<open>
  Claim C6: when a required parameter is satisfied by no positional argument, no keyword
  argument and no declared default, argument separation fails with an error.

  The required input \<^verbatim>\<open>self\<close> of \<^verbatim>\<open>aten_unary\<close> is supplied by nothing: separation
  returns, with \<^verbatim>\<open>None\<close> in the input's place when \<^verbatim>\<open>fill_defaults\<close> is set and with no
  input at all otherwise. The required attribute \<^verbatim>\<open>dims\<close> of \<^verbatim>\<open>aten_reshape_like\<close>, which
  has no default, is left out of the attributes without an error.
\<close>

theorem separate_required_parameter_missing:
  "param_required (input_param ''self'')
   \<and> separate_input_attributes_from_arguments (attributes (aten_unary ''f''))
        (param_schemas (aten_unary ''f'')) [] [] True = Inr ([PNone], [])
   \<and> separate_input_attributes_from_arguments (attributes (aten_unary ''f''))
        (param_schemas (aten_unary ''f'')) [] [] False = Inr ([], [])
   \<and> separate_input_attributes_from_arguments (attributes aten_reshape_like)
        (param_schemas aten_reshape_like) [PTensor (Some torch_float32)] [] True
      = Inr ([PTensor (Some torch_float32)], [])"
  by (simp add: eval_defs aten_unary_def aten_reshape_like_def)

section \<open>Optional inputs\<close>

text \<open>
  Claim C7: for a declared optional input that the call supplies neither positionally
  nor by keyword, argument separation with \<^verbatim>\<open>fill_defaults\<close> set puts \<^verbatim>\<open>None\<close> into the
  input's slot, right after the inputs of the parameters before it, and the check of
  that slot leaves the perfect-match flag as it was.

  An input is declared optional when the allowed set of its type constraint holds an
  optional type of \<open>OPTIONAL_ONNX_DTYPE_STR\<close>: this is what \<^verbatim>\<open>perfect_match_inputs\<close>
  tests. The first part holds for every input that is not variadic, whatever its
  \<^verbatim>\<open>required\<close> flag, which the dispatcher never reads.
\<close>

theorem omitted_optional_input:
  assumes "param_schemas f = pre @ param # post"
    and "is_input param" and "\<not> is_variadic_input param"
    and "length args \<le> length pre \<or> list_ex is_variadic_input pre"
    and "map_of kwargs (param_name param) = None"
  shows "(\<forall>function_inputs function_attributes.
            separate_input_attributes_from_arguments (attributes f) (param_schemas f)
              args kwargs True = Inr (function_inputs, function_attributes) \<longrightarrow>
            (\<exists>args' before onnx_attributes copy_kwargs after.
               separate_loop (attributes f) True 0 pre (args, [], [], kwargs)
                 = Inr (args', before, onnx_attributes, copy_kwargs)
               \<and> function_inputs = before @ PNone # after))
       \<and> (\<forall>schema_input allowed_types rest is_perfect_match.
            map_of (type_constraints f) (type_str schema_input) = Some allowed_types \<longrightarrow>
            (\<exists>onnx_type_str \<in> allowed_types. is_optional_onnx_dtype_str onnx_type_str) \<longrightarrow>
            check_input_types (type_constraints f) ((schema_input, PNone) # rest) is_perfect_match
              = check_input_types (type_constraints f) rest is_perfect_match)"
proof -
  let ?name = "param_name param"
  have filled: "\<exists>args' before onnx_attributes copy_kwargs after.
      separate_loop (attributes f) True 0 pre (args, [], [], kwargs)
        = Inr (args', before, onnx_attributes, copy_kwargs)
      \<and> function_inputs = before @ PNone # after"
    if sep: "separate_input_attributes_from_arguments (attributes f) (param_schemas f)
        args kwargs True = Inr (function_inputs, function_attributes)"
    for function_inputs function_attributes
  proof -
    from sep obtain a' oattrs' ckw' where
      loop: "separate_loop (attributes f) True 0 (pre @ param # post) (args, [], [], kwargs)
          = Inr (a', function_inputs, oattrs', ckw')"
      unfolding separate_input_attributes_from_arguments_def assms(1)
      by (auto split: sum.splits)
    from loop obtain st1 st2 where
      pre: "separate_loop (attributes f) True 0 pre (args, [], [], kwargs) = Inr st1"
      and step: "separate_step (attributes f) True (length pre) param st1 = Inr st2"
      and post: "separate_loop (attributes f) True (Suc (length pre)) post st2
          = Inr (a', function_inputs, oattrs', ckw')"
      unfolding separate_loop_at by (auto split: sum.splits)
    obtain a1 ins1 oattrs1 ckw1 where st1: "st1 = (a1, ins1, oattrs1, ckw1)" by (cases st1)
    from pre st1 have "a1 = (if list_ex is_variadic_input pre then [] else args)"
      using separate_loop_args by blast
    with assms(4) have short: "\<not> length pre < length a1" by auto
    from pre st1 assms(5) have kw: "map_of ckw1 ?name = None"
      using separate_loop_kwargs_absent by blast
    from step st1 short kw assms(2,3)
    have st2: "st2 = (a1, ins1 @ [PNone], oattrs1, ckw1)" by (simp add: is_attribute_def)
    from post st2 obtain more where "function_inputs = (ins1 @ [PNone]) @ more"
      using separate_loop_inputs by blast
    then have "function_inputs = ins1 @ PNone # more" by simp
    with pre st1 show ?thesis by blast
  qed
  have passes: "check_input_types (type_constraints f) ((schema_input, PNone) # rest) is_perfect_match
      = check_input_types (type_constraints f) rest is_perfect_match"
    if "map_of (type_constraints f) (type_str schema_input) = Some allowed_types"
      and "\<exists>onnx_type_str \<in> allowed_types. is_optional_onnx_dtype_str onnx_type_str"
    for schema_input allowed_types rest is_perfect_match
    using that by simp
  from filled have 1: "\<forall>function_inputs function_attributes.
      separate_input_attributes_from_arguments (attributes f) (param_schemas f)
        args kwargs True = Inr (function_inputs, function_attributes) \<longrightarrow>
      (\<exists>args' before onnx_attributes copy_kwargs after.
         separate_loop (attributes f) True 0 pre (args, [], [], kwargs)
           = Inr (args', before, onnx_attributes, copy_kwargs)
         \<and> function_inputs = before @ PNone # after)"
    by (intro allI impI)
  from passes have 2: "\<forall>schema_input allowed_types rest is_perfect_match.
      map_of (type_constraints f) (type_str schema_input) = Some allowed_types \<longrightarrow>
      (\<exists>onnx_type_str \<in> allowed_types. is_optional_onnx_dtype_str onnx_type_str) \<longrightarrow>
      check_input_types (type_constraints f) ((schema_input, PNone) # rest) is_perfect_match
        = check_input_types (type_constraints f) rest is_perfect_match"
    by (intro allI impI)
  show ?thesis by (rule conjI [OF 1 2])
qed

theorem omitted_optional_input_witness:
  "perfect_match_inputs aten_optional_bias [PTensor (Some torch_float32)] [] = Inr (True, Some 1)
   \<and> (\<exists>after. separate_input_attributes_from_arguments (attributes aten_optional_bias)
         (param_schemas aten_optional_bias) [PTensor (Some torch_float32)] [] True
       = Inr ([PTensor (Some torch_float32)] @ PNone # after, []))
   \<and> check_input_types (type_constraints aten_optional_bias)
        [(\<lparr>formal_name = ''Y'', type_str = ''T1''\<rparr>, PNone)] True = Inr True"
proof -
  let ?f = aten_optional_bias and ?args = "[PTensor (Some torch_float32)]"
  have schemas: "param_schemas ?f = [input_param ''X''] @ optional_input_param ''Y'' # []"
    by (simp add: aten_optional_bias_def)
  have h: "is_input (optional_input_param ''Y'')" "\<not> is_variadic_input (optional_input_param ''Y'')"
    "length ?args \<le> length [input_param ''X''] \<or> list_ex is_variadic_input [input_param ''X'']"
    "map_of [] (param_name (optional_input_param ''Y'')) = (None :: pyval option)"
    by (simp_all add: param_defs)
  note inst = omitted_optional_input [OF schemas h]
  have sep: "separate_input_attributes_from_arguments (attributes ?f) (param_schemas ?f) ?args [] True
      = Inr ([PTensor (Some torch_float32), PNone], [])"
    by (simp add: eval_defs aten_optional_bias_def)
  have pre: "separate_loop (attributes ?f) True 0 [input_param ''X''] (?args, [], [], [])
      = Inr (?args, ?args, [], [])"
    by (simp add: eval_defs)
  from inst sep pre have slot: "\<exists>after. [PTensor (Some torch_float32), PNone]
      = [PTensor (Some torch_float32)] @ PNone # after"
    by simp
  have tc: "map_of (type_constraints ?f) (type_str \<lparr>formal_name = ''Y'', type_str = ''T1''\<rparr>)
      = Some {''tensor(int64)'', ''optional(tensor(int64))''}"
    by (simp add: eval_defs aten_optional_bias_def)
  have opt: "\<exists>t \<in> {''tensor(int64)'', ''optional(tensor(int64))''}. is_optional_onnx_dtype_str t"
    by (simp add: table_defs)
  from inst tc opt have chk: "check_input_types (type_constraints ?f)
      [(\<lparr>formal_name = ''Y'', type_str = ''T1''\<rparr>, PNone)] True = Inr True"
    by simp
  have pm: "perfect_match_inputs ?f ?args [] = Inr (True, Some 1)"
    by (simp add: eval_defs aten_optional_bias_def)
  from pm sep slot chk show ?thesis by simp
qed

section \<open>Keyword arguments left over\<close>

text \<open>
  Claim C8: a keyword argument that is still among the keyword arguments after the
  walk over the declared parameters, and whose name the walk did not make an attribute,
  is in the resulting attribute mapping if and only if its value is not \<^verbatim>\<open>None\<close>, and
  then with its value; and a keyword that names no parameter and whose value is \<^verbatim>\<open>None\<close>
  changes neither the separation nor the result of the perfect-match test, so that a
  candidate without a parameter of that name can still be a perfect match.
\<close>

theorem stray_keyword_arguments:
  assumes "distinct (map fst kwargs)"
  shows "(\<forall>args' onnx_inputs onnx_attributes copy_kwargs k v.
            separate_loop (attributes f) fill_defaults 0 (param_schemas f) (args, [], [], kwargs)
              = Inr (args', onnx_inputs, onnx_attributes, copy_kwargs) \<longrightarrow>
            (k, v) \<in> set copy_kwargs \<longrightarrow> k \<notin> fst ` set onnx_attributes \<longrightarrow>
            (\<exists>function_attributes.
               separate_input_attributes_from_arguments (attributes f) (param_schemas f)
                 args kwargs fill_defaults = Inr (onnx_inputs, function_attributes)
               \<and> map_of function_attributes k = (if v = PNone then None else Some v)
               \<and> (k \<in> fst ` set function_attributes) = (v \<noteq> PNone)))
       \<and> (\<forall>k. k \<notin> param_name ` set (param_schemas f) \<longrightarrow> map_of kwargs k = Some PNone \<longrightarrow>
            separate_input_attributes_from_arguments (attributes f) (param_schemas f)
                 args kwargs fill_defaults
              = separate_input_attributes_from_arguments (attributes f) (param_schemas f)
                 args (AList.delete k kwargs) fill_defaults
            \<and> perfect_match_inputs f args kwargs
              = perfect_match_inputs f args (AList.delete k kwargs))"
proof -
  have picked: "\<exists>function_attributes.
      separate_input_attributes_from_arguments (attributes f) (param_schemas f)
        args kwargs fill_defaults = Inr (onnx_inputs, function_attributes)
      \<and> map_of function_attributes k = (if v = PNone then None else Some v)
      \<and> (k \<in> fst ` set function_attributes) = (v \<noteq> PNone)"
    if loop: "separate_loop (attributes f) fill_defaults 0 (param_schemas f) (args, [], [], kwargs)
        = Inr (args', onnx_inputs, onnx_attributes, copy_kwargs)"
      and kv: "(k, v) \<in> set copy_kwargs" and fresh: "k \<notin> fst ` set onnx_attributes"
    for args' onnx_inputs onnx_attributes copy_kwargs k v
  proof -
    from loop assms have d: "distinct (map fst copy_kwargs)"
      using separate_loop_kwargs_subset by blast
    from d kv have "map_of copy_kwargs k = Some v" by simp
    moreover from fresh have "map_of onnx_attributes k = None" by (simp add: map_of_eq_None_iff)
    ultimately have m: "map_of (pick_up_extra_kwargs copy_kwargs onnx_attributes) k
        = (if v = PNone then None else Some v)"
      by (simp add: pick_up_extra_kwargs_map_of [OF d])
    have "(k \<in> fst ` set (pick_up_extra_kwargs copy_kwargs onnx_attributes))
        = (map_of (pick_up_extra_kwargs copy_kwargs onnx_attributes) k \<noteq> None)"
      by (simp add: map_of_eq_None_iff)
    with m have "(k \<in> fst ` set (pick_up_extra_kwargs copy_kwargs onnx_attributes)) = (v \<noteq> PNone)"
      by simp
    with m loop show ?thesis
      by (simp add: separate_input_attributes_from_arguments_def)
  qed
  have dropped: "separate_input_attributes_from_arguments (attributes f) (param_schemas f)
          args kwargs fill_defaults
        = separate_input_attributes_from_arguments (attributes f) (param_schemas f)
          args (AList.delete k kwargs) fill_defaults
      \<and> perfect_match_inputs f args kwargs = perfect_match_inputs f args (AList.delete k kwargs)"
    if stray: "k \<notin> param_name ` set (param_schemas f)" and null: "map_of kwargs k = Some PNone"
    for k
  proof -
    have all_null: "\<forall>v. (k, v) \<in> set kwargs \<longrightarrow> v = PNone"
    proof (intro allI impI)
      fix v assume "(k, v) \<in> set kwargs"
      with assms have "map_of kwargs k = Some v" by simp
      with null show "v = PNone" by simp
    qed
    have "separate_input_attributes_from_arguments (attributes f) (param_schemas f)
          args (AList.delete k kwargs) fill = separate_input_attributes_from_arguments
          (attributes f) (param_schemas f) args kwargs fill" for fill
      using stray all_null by (rule separate_delete_null_keyword)
    then show ?thesis by (simp add: perfect_match_inputs_def)
  qed
  from picked have 1: "\<forall>args' onnx_inputs onnx_attributes copy_kwargs k v.
      separate_loop (attributes f) fill_defaults 0 (param_schemas f) (args, [], [], kwargs)
        = Inr (args', onnx_inputs, onnx_attributes, copy_kwargs) \<longrightarrow>
      (k, v) \<in> set copy_kwargs \<longrightarrow> k \<notin> fst ` set onnx_attributes \<longrightarrow>
      (\<exists>function_attributes.
         separate_input_attributes_from_arguments (attributes f) (param_schemas f)
           args kwargs fill_defaults = Inr (onnx_inputs, function_attributes)
         \<and> map_of function_attributes k = (if v = PNone then None else Some v)
         \<and> (k \<in> fst ` set function_attributes) = (v \<noteq> PNone))"
    by (intro allI impI)
  from dropped have 2: "\<forall>k. k \<notin> param_name ` set (param_schemas f) \<longrightarrow> map_of kwargs k = Some PNone \<longrightarrow>
      separate_input_attributes_from_arguments (attributes f) (param_schemas f)
           args kwargs fill_defaults
        = separate_input_attributes_from_arguments (attributes f) (param_schemas f)
           args (AList.delete k kwargs) fill_defaults
      \<and> perfect_match_inputs f args kwargs = perfect_match_inputs f args (AList.delete k kwargs)"
    by (intro allI impI)
  show ?thesis by (rule conjI [OF 1 2])
qed

theorem stray_keyword_arguments_witness:
  "perfect_match_inputs (aten_binary ''div'')
     [PTensor (Some torch_float32), PTensor (Some torch_float32)] [(''rounding_mode'', PNone)]
     = Inr (True, Some 2)
   \<and> (\<exists>function_attributes.
         separate_input_attributes_from_arguments (attributes (aten_binary ''div''))
           (param_schemas (aten_binary ''div''))
           [PTensor (Some torch_float32), PTensor (Some torch_float32)]
           [(''rounding_mode'', PStr ''floor'')] True
         = Inr ([PTensor (Some torch_float32), PTensor (Some torch_float32)], function_attributes)
         \<and> map_of function_attributes ''rounding_mode'' = Some (PStr ''floor''))"
proof -
  let ?f = "aten_binary ''div''"
  let ?args = "[PTensor (Some torch_float32), PTensor (Some torch_float32)]"
  have d: "distinct (map fst [(''rounding_mode'', PNone)])"
    and d': "distinct (map fst [(''rounding_mode'', PStr ''floor'')])"
    by simp_all
  have stray: "''rounding_mode'' \<notin> param_name ` set (param_schemas ?f)"
    by (simp add: aten_binary_def param_defs)
  have null: "map_of [(''rounding_mode'', PNone)] ''rounding_mode'' = Some PNone"
    by simp
  note inst = stray_keyword_arguments [OF d, where f = ?f and args = ?args and fill_defaults = True]
  from inst have "\<forall>k. k \<notin> param_name ` set (param_schemas ?f) \<longrightarrow>
      map_of [(''rounding_mode'', PNone)] k = Some PNone \<longrightarrow>
      separate_input_attributes_from_arguments (attributes ?f) (param_schemas ?f)
           ?args [(''rounding_mode'', PNone)] True
        = separate_input_attributes_from_arguments (attributes ?f) (param_schemas ?f)
           ?args (AList.delete k [(''rounding_mode'', PNone)]) True
      \<and> perfect_match_inputs ?f ?args [(''rounding_mode'', PNone)]
        = perfect_match_inputs ?f ?args (AList.delete k [(''rounding_mode'', PNone)])"
    by (elim conjE)
  with stray null
  have "perfect_match_inputs ?f ?args [(''rounding_mode'', PNone)]
      = perfect_match_inputs ?f ?args (AList.delete ''rounding_mode'' [(''rounding_mode'', PNone)])"
    by blast
  then have dropped: "perfect_match_inputs ?f ?args [(''rounding_mode'', PNone)] = Inr (True, Some 2)"
    by (simp add: aten_binary_two_arguments)
  have loop: "separate_loop (attributes ?f) True 0 (param_schemas ?f)
      (?args, [], [], [(''rounding_mode'', PStr ''floor'')])
      = Inr (?args, ?args, [], [(''rounding_mode'', PStr ''floor'')])"
    by (simp add: eval_defs aten_binary_def)
  have left: "(''rounding_mode'', PStr ''floor'') \<in> set [(''rounding_mode'', PStr ''floor'')]"
    and fresh: "''rounding_mode'' \<notin> fst ` set ([] :: (string \<times> pyval) list)"
    by simp_all
  note inst' = stray_keyword_arguments [OF d', where f = ?f and args = ?args and fill_defaults = True]
  from inst' loop left fresh
  have "\<exists>function_attributes.
      separate_input_attributes_from_arguments (attributes ?f) (param_schemas ?f)
        ?args [(''rounding_mode'', PStr ''floor'')] True = Inr (?args, function_attributes)
      \<and> map_of function_attributes ''rounding_mode''
          = (if PStr ''floor'' = PNone then None else Some (PStr ''floor''))
      \<and> (''rounding_mode'' \<in> fst ` set function_attributes) = (PStr ''floor'' \<noteq> PNone)"
    by blast
  then have picked: "\<exists>function_attributes.
      separate_input_attributes_from_arguments (attributes ?f) (param_schemas ?f)
        ?args [(''rounding_mode'', PStr ''floor'')] True = Inr (?args, function_attributes)
      \<and> map_of function_attributes ''rounding_mode'' = Some (PStr ''floor'')"
    by auto
  from dropped picked show ?thesis by (intro conjI)
qed

section \<open>The type compatibility function\<close>

text \<open>
  Claim C9, as stated: the type-compatibility function is total over the expected value
  shapes, with the unknown-input-type error for an unrecognized shape as its one
  failure. A tensor-like value whose dtype is known but is no key of the compatibility
  table is a second failure: the table lookup raises \<^verbatim>\<open>KeyError\<close>.
\<close>

theorem find_onnx_data_type_unlisted_dtype:
  "find_onnx_data_type (PTensor (Some torch_uint16)) = Inl KeyError"
  by (simp add: table_defs)

lemma find_onnx_data_type_tensor:
  "(find_onnx_data_type (PTensor (Some d)) = Inl KeyError)
     = (d \<in> {torch_uint16, torch_uint32, torch_uint64, torch_qint8, torch_quint8, torch_qint32})"
  "(\<exists>s. find_onnx_data_type (PTensor (Some d)) = Inr s)
     = (d \<notin> {torch_uint16, torch_uint32, torch_uint64, torch_qint8, torch_quint8, torch_qint32})"
  by (cases d; simp add: table_defs)+

text \<open>
  Claim C9 (amended): the type-compatibility function returns the empty constraint set
  for every empty sequence, for the absent value and for every tensor-like value whose
  dtype is \<^verbatim>\<open>None\<close>; it returns the table's set for a scalar; for a value of none of the
  recognized shapes it raises the unknown-input-type error; and for a tensor-like value
  with a dtype it returns a set exactly when the dtype is a key of the compatibility
  table, and raises \<^verbatim>\<open>KeyError\<close> otherwise.
\<close>

theorem find_onnx_data_type_cases:
  "find_onnx_data_type (PList []) = Inr {}
   \<and> find_onnx_data_type (PTuple []) = Inr {}
   \<and> find_onnx_data_type PNone = Inr {}
   \<and> find_onnx_data_type (PTensor None) = Inr {}
   \<and> find_onnx_data_type (PObject s) = Inl UnknownInputType
   \<and> find_onnx_data_type (PInt i) = Inr {''tensor(int16)'', ''tensor(int32)'', ''tensor(int64)''}
   \<and> find_onnx_data_type (PFloat r) = Inr {''tensor(float16)'', ''tensor(float)'', ''tensor(double)''}
   \<and> find_onnx_data_type (PBool b) = Inr {''tensor(int32)'', ''tensor(int64)'', ''tensor(bool)''}
   \<and> find_onnx_data_type (PStr str) = Inr {''tensor(string)''}
   \<and> find_onnx_data_type (PComplex c) = Inr {''tensor(float)'', ''tensor(double)''}
   \<and> (find_onnx_data_type (PTensor (Some d)) = Inl KeyError)
       = (d \<in> {torch_uint16, torch_uint32, torch_uint64, torch_qint8, torch_quint8, torch_qint32})
   \<and> (\<exists>types. find_onnx_data_type (PTensor (Some d)) = Inr types)
       = (d \<notin> {torch_uint16, torch_uint32, torch_uint64, torch_qint8, torch_quint8, torch_qint32})"
  using find_onnx_data_type_tensor [of d] by (simp add: table_defs)

section \<open>Declared attributes given as null\<close>

text \<open>
  Claim C10: for a declared attribute parameter that the call supplies by keyword, and
  not positionally, with the value \<^verbatim>\<open>None\<close>, argument separation keeps the attribute
  with the value \<^verbatim>\<open>None\<close> in the attribute mapping, so that its name counts in the
  comparison of the attribute names; the candidate is never a perfect match for the
  call; and whenever the perfect-match test returns, it has recorded a score exactly
  when the call passed the count and name check.
\<close>

theorem null_valued_declared_attribute:
  assumes "param_schemas f = pre @ param # post"
    and "distinct (map param_name (param_schemas f))"
    and "\<not> is_input param" and "\<not> is_variadic_input param"
    and "length args \<le> length pre \<or> list_ex is_variadic_input pre"
    and "map_of kwargs (param_name param) = Some PNone"
  shows "(\<forall>fill_defaults function_inputs function_attributes.
            separate_input_attributes_from_arguments (attributes f) (param_schemas f)
              args kwargs fill_defaults = Inr (function_inputs, function_attributes) \<longrightarrow>
            map_of function_attributes (param_name param) = Some PNone
            \<and> param_name param \<in> fst ` set function_attributes)
       \<and> (\<forall>is_perfect score.
            perfect_match_inputs f args kwargs = Inr (is_perfect, score) \<longrightarrow>
            \<not> is_perfect
            \<and> (\<exists>function_inputs function_attributes.
                  separate_input_attributes_from_arguments (attributes f) (param_schemas f)
                    args kwargs True = Inr (function_inputs, function_attributes)
                  \<and> (score \<noteq> None)
                      = count_and_names_match f function_inputs function_attributes))"
proof -
  let ?name = "param_name param"
  from assms(1,2) have fresh_pre: "?name \<notin> param_name ` set pre"
    and fresh_post: "?name \<notin> param_name ` set post" by auto
  have retained: "map_of function_attributes ?name = Some PNone
      \<and> ?name \<in> fst ` set function_attributes"
    if sep: "separate_input_attributes_from_arguments (attributes f) (param_schemas f)
        args kwargs fill = Inr (function_inputs, function_attributes)"
    for fill function_inputs function_attributes
  proof -
    from sep obtain a' oattrs' ckw' where
      loop: "separate_loop (attributes f) fill 0 (pre @ param # post) (args, [], [], kwargs)
          = Inr (a', function_inputs, oattrs', ckw')"
      and fa: "function_attributes = pick_up_extra_kwargs ckw' oattrs'"
      unfolding separate_input_attributes_from_arguments_def assms(1)
      by (auto split: sum.splits)
    from loop obtain st1 st2 where
      pre: "separate_loop (attributes f) fill 0 pre (args, [], [], kwargs) = Inr st1"
      and step: "separate_step (attributes f) fill (length pre) param st1 = Inr st2"
      and post: "separate_loop (attributes f) fill (Suc (length pre)) post st2
          = Inr (a', function_inputs, oattrs', ckw')"
      unfolding separate_loop_at by (auto split: sum.splits)
    obtain a1 ins1 oattrs1 ckw1 where st1: "st1 = (a1, ins1, oattrs1, ckw1)" by (cases st1)
    from pre st1 have "a1 = (if list_ex is_variadic_input pre then [] else args)"
      using separate_loop_args by blast
    with assms(5) have short: "\<not> length pre < length a1" by auto
    from pre st1 fresh_pre have "map_of ckw1 ?name = map_of kwargs ?name"
      using separate_loop_kwargs_kept by blast
    with assms(6) have kw: "map_of ckw1 ?name = Some PNone" by simp
    from step st1 short kw assms(3,4)
    have st2: "st2 = (a1, ins1, AList.update ?name PNone oattrs1, ckw1)" by simp
    from post st2 fresh_post
    have "map_of oattrs' ?name = map_of (AList.update ?name PNone oattrs1) ?name"
      using separate_loop_attribute_kept by blast
    then have "map_of oattrs' ?name = Some PNone" by (simp add: update_conv')
    then have m: "map_of function_attributes ?name = Some PNone"
      unfolding fa by (rule pick_up_extra_kwargs_keeps)
    then have "(?name, PNone) \<in> set function_attributes" by (rule map_of_SomeD)
    then have "?name \<in> fst ` set function_attributes" by force
    with m show ?thesis by simp
  qed
  have never: "\<not> is_perfect
      \<and> (\<exists>function_inputs function_attributes.
            separate_input_attributes_from_arguments (attributes f) (param_schemas f)
              args kwargs True = Inr (function_inputs, function_attributes)
            \<and> (score \<noteq> None) = count_and_names_match f function_inputs function_attributes)"
    if pm: "perfect_match_inputs f args kwargs = Inr (is_perfect, score)" for is_perfect score
  proof -
    from perfect_match_inputs_Inr [OF pm] obtain function_inputs function_attributes where
      sep: "separate_input_attributes_from_arguments (attributes f) (param_schemas f) args kwargs True
          = Inr (function_inputs, function_attributes)"
      and sc: "(score \<noteq> None) = count_and_names_match f function_inputs function_attributes"
      and chk: "is_perfect \<longrightarrow>
          (\<exists>ok. check_attribute_types (attributes f) function_attributes ok = Inr True)"
      by blast
    from retained [OF sep] have "(?name, PNone) \<in> set function_attributes"
      by (auto dest: map_of_SomeD)
    then have "\<not> is_perfect"
      using chk check_attribute_types_null by blast
    with sep sc show ?thesis by blast
  qed
  from retained have 1: "\<forall>fill_defaults function_inputs function_attributes.
      separate_input_attributes_from_arguments (attributes f) (param_schemas f)
        args kwargs fill_defaults = Inr (function_inputs, function_attributes) \<longrightarrow>
      map_of function_attributes ?name = Some PNone \<and> ?name \<in> fst ` set function_attributes"
    by (intro allI impI)
  from never have 2: "\<forall>is_perfect score.
      perfect_match_inputs f args kwargs = Inr (is_perfect, score) \<longrightarrow>
      \<not> is_perfect
      \<and> (\<exists>function_inputs function_attributes.
            separate_input_attributes_from_arguments (attributes f) (param_schemas f)
              args kwargs True = Inr (function_inputs, function_attributes)
            \<and> (score \<noteq> None) = count_and_names_match f function_inputs function_attributes)"
    by (intro allI impI)
  show ?thesis by (rule conjI [OF 1 2])
qed

theorem null_valued_declared_attribute_witness:
  "separate_input_attributes_from_arguments (attributes aten_with_default)
     (param_schemas aten_with_default) [PTensor (Some torch_float32)] [(''a'', PNone)] True
     = Inr ([PTensor (Some torch_float32)], [(''a'', PNone)])
   \<and> count_and_names_match aten_with_default [PTensor (Some torch_float32)] [(''a'', PNone)]
   \<and> perfect_match_inputs aten_with_default [PTensor (Some torch_float32)] [(''a'', PNone)]
     = Inr (False, Some 0)
   \<and> perfect_match_inputs aten_with_default [PTensor (Some torch_float32)] []
     = Inr (True, Some 1)"
proof -
  let ?f = aten_with_default and ?args = "[PTensor (Some torch_float32)]"
  let ?param = "attribute_param ''a'' (PInt 3) False"
  have schemas: "param_schemas ?f = [input_param ''X''] @ ?param # []"
    by (simp add: aten_with_default_def)
  have names: "distinct (map param_name (param_schemas ?f))"
    by (simp add: aten_with_default_def param_defs)
  have h: "\<not> is_input ?param" "\<not> is_variadic_input ?param"
    "length ?args \<le> length [input_param ''X''] \<or> list_ex is_variadic_input [input_param ''X'']"
    "map_of [(''a'', PNone)] (param_name ?param) = Some PNone"
    by (simp_all add: param_defs)
  note inst = null_valued_declared_attribute [OF schemas names h]
  have sep: "separate_input_attributes_from_arguments (attributes ?f) (param_schemas ?f)
      ?args [(''a'', PNone)] True = Inr (?args, [(''a'', PNone)])"
    by (simp add: eval_defs aten_with_default_def)
  have eligible: "count_and_names_match ?f ?args [(''a'', PNone)]"
    by (simp add: eval_defs aten_with_default_def)
  have pm: "perfect_match_inputs ?f ?args [(''a'', PNone)] = Inr (False, Some 0)"
    by (simp add: eval_defs aten_with_default_def)
  have dflt: "perfect_match_inputs ?f ?args [] = Inr (True, Some 1)"
    by (simp add: eval_defs aten_with_default_def)
  from inst sep eligible pm dflt show ?thesis by simp
qed

end
